theory Spec2Isabelle
  imports Complex_Main
begin

section \<open>Strings of the host language\<close>

text \<open>
  The simulator (\<^verbatim>\<open>src/runtime/simulator.ts\<close>) is TypeScript; its strings are sequences
  of UTF-16 code units. A string is modelled as the list of its code units, each a natural
  number, so that \<^verbatim>\<open>trim\<close>, \<^verbatim>\<open>split\<close> and the regular expression (which has no
  \<^verbatim>\<open>u\<close> flag and therefore works on code units) see what the program sees.
  \<open>js\<close> turns a literal into its code units.
\<close>

type_synonym jsstring = "nat list"

definition js :: "string \<Rightarrow> jsstring" where
  "js s = map of_char s"

text \<open>
  The code units that \<^verbatim>\<open>String.prototype.trim\<close>, the class \<^verbatim>\<open>\s\<close> and
  \<^verbatim>\<open>parseInt\<close> treat as white space (WhiteSpace and LineTerminator of ECMAScript):
  TAB, LF, VT, FF, CR, SP, NBSP, U+1680, U+2000..U+200A, U+2028, U+2029, U+202F, U+205F,
  U+3000 and U+FEFF.
\<close>

definition is_space :: "nat \<Rightarrow> bool" where
  "is_space c \<longleftrightarrow>
     (9 \<le> c \<and> c \<le> 13) \<or> c = 32 \<or> c = 160 \<or> c = 5760 \<or> (8192 \<le> c \<and> c \<le> 8202) \<or>
     c = 8232 \<or> c = 8233 \<or> c = 8239 \<or> c = 8287 \<or> c = 12288 \<or> c = 65279"

text \<open>The class \<^verbatim>\<open>\d\<close>: the ten ASCII digits.\<close>

definition is_digit :: "nat \<Rightarrow> bool" where
  "is_digit c \<longleftrightarrow> 48 \<le> c \<and> c \<le> 57"

text \<open>\<^verbatim>\<open>s.trim()\<close>: white space removed at both ends.\<close>

definition trim :: "jsstring \<Rightarrow> jsstring" where
  "trim s = rev (dropWhile is_space (rev (dropWhile is_space s)))"

text \<open>
  \<^verbatim>\<open>s.split(/\r?\n/)\<close>. The scan goes left to right; at a CR followed by LF the
  separator is both code units, at an LF it is that one, and a CR that no LF follows stays
  in the piece. The first argument is the piece collected so far. The result is never empty:
  a string without a separator is returned as the only piece.
\<close>

fun split_from :: "jsstring \<Rightarrow> jsstring \<Rightarrow> jsstring list" where
  "split_from cur [] = [cur]"
| "split_from cur [c] = (if c = 10 then [cur, []] else [cur @ [c]])"
| "split_from cur (c # d # cs) =
     (if c = 13 \<and> d = 10 then cur # split_from [] cs
      else if c = 10 then cur # split_from [] (d # cs)
      else split_from (cur @ [c]) (d # cs))"

definition split_lines :: "jsstring \<Rightarrow> jsstring list" where
  "split_lines s = split_from [] s"

text \<open>\<^verbatim>\<open>xs.join(sep)\<close>.\<close>

fun join :: "jsstring \<Rightarrow> jsstring list \<Rightarrow> jsstring" where
  "join sep [] = []"
| "join sep [x] = x"
| "join sep (x # y # ys) = x @ sep @ join sep (y # ys)"

text \<open>
  Numbers are IEEE doubles. The only numbers of the program that come from data are the
  results of \<^verbatim>\<open>Number.parseInt(s, 10)\<close>, which are integers, negative zero or an
  infinity (NaN is \<open>None\<close> below).
\<close>

datatype jsnumber = Finite int | NegZero | PosInfinity | NegInfinity

text \<open>The number of binary digits of a natural number.\<close>

fun bitlen :: "nat \<Rightarrow> nat" where
  "bitlen n = (if n = 0 then 0 else Suc (bitlen (n div 2)))"

declare bitlen.simps [simp del]

text \<open>
  The double nearest to a natural number, ties to the even significand: every natural
  number below \<open>2 ^ 53\<close> is a double; a larger one keeps its 53 leading binary digits,
  rounded; \<open>None\<close> is the overflow to infinity (from \<open>2 ^ 1024 - 2 ^ 970\<close> on).
\<close>

definition to_double :: "nat \<Rightarrow> nat option" where
  "to_double n =
     (if n < 2 ^ 53 then Some n
      else let e = bitlen n - 53;
               q = n div 2 ^ e;
               r = n mod 2 ^ e;
               half = 2 ^ (e - 1);
               m = (if half < r \<or> (r = half \<and> odd q) then q + 1 else q)
           in if 2 ^ 1024 \<le> m * 2 ^ e then None else Some (m * 2 ^ e))"

definition js_number :: "bool \<Rightarrow> nat \<Rightarrow> jsnumber" where
  "js_number negative n =
     (case to_double n of
        None \<Rightarrow> if negative then NegInfinity else PosInfinity
      | Some v \<Rightarrow>
          if v = 0 \<and> negative then NegZero
          else Finite (if negative then - int v else int v))"

text \<open>
  \<^verbatim>\<open>Number.parseInt(s, 10)\<close>: leading white space is skipped, one sign is read, then the
  longest run of decimal digits; without a digit the result is NaN, here \<open>None\<close>. The
  result is the double nearest to the integer that the digits denote (the language allows
  an implementation to read the digits after the twentieth as zeros; Node reads all of
  them and rounds correctly, which is what is modelled).
\<close>

definition digit_value :: "jsstring \<Rightarrow> nat" where
  "digit_value ds = foldl (\<lambda>n c. 10 * n + (c - 48)) 0 ds"

definition parseInt :: "jsstring \<Rightarrow> jsnumber option" where
  "parseInt s =
     (let t = dropWhile is_space s;
          negative = (t \<noteq> [] \<and> hd t = 45);
          u = (if t \<noteq> [] \<and> (hd t = 43 \<or> hd t = 45) then tl t else t);
          ds = takeWhile is_digit u
      in if ds = [] then None else Some (js_number negative (digit_value ds)))"

section \<open>Data model\<close>

datatype Severity = Error | Warning

record SimulationError =
  message :: jsstring
  chunkName :: jsstring
  line :: "jsnumber option"
  column :: "jsnumber option"
  stack :: "jsstring option"
  severity :: Severity

record SimulationChunk =
  code :: jsstring
  chunkName :: jsstring

record SimulationResult =
  success :: bool
  durationMs :: real
  errors :: "SimulationError list"
  "output" :: "jsstring list"

record SimulationOptions =
  chunk :: SimulationChunk
  prelude :: "SimulationChunk option"
  preloads :: "SimulationChunk list option"
  stubbedServices :: "jsstring list option"

section \<open>The error translator: \<^verbatim>\<open>extractErrors\<close>\<close>

text \<open>
  The pattern of line 48 is
  \<^verbatim>\<open>^(?:\[string "(?<chunk>[^"]+)"\]|(?<direct>[^:]+)):(?<line>\d+):\s*(?<message>[\s\S]*)$\<close>
  and \<^verbatim>\<open>exec\<close> runs it from index 0 with no flag, so \<^verbatim>\<open>^\<close> and \<^verbatim>\<open>$\<close> are the
  two ends of the headline. The named groups of a match are a record; a group that did not
  take part is \<open>None\<close>.
\<close>

record groups =
  chunk_group :: "jsstring option"
  direct_group :: "jsstring option"
  line_group :: "jsstring option"
  message_group :: "jsstring option"

text \<open>
  The part after the alternation, \<^verbatim>\<open>:(?<line>\d+):\s*(?<message>[\s\S]*)$\<close>.
  \<^verbatim>\<open>\d+\<close> is greedy and must be followed by a colon, which is no digit, so only the longest
  run of digits can succeed; \<^verbatim>\<open>\s*\<close> is greedy and whatever follows it is accepted by
  \<^verbatim>\<open>[\s\S]*$\<close>, so the first success takes the longest run of white space. The result is
  the pair of the captured digits and the captured message.
\<close>

definition match_tail :: "jsstring \<Rightarrow> (jsstring \<times> jsstring) option" where
  "match_tail s =
     (case s of
        [] \<Rightarrow> None
      | c # r \<Rightarrow>
          if c \<noteq> 58 then None
          else let ds = takeWhile is_digit r; r2 = dropWhile is_digit r
               in if ds = [] then None
                  else (case r2 of
                          [] \<Rightarrow> None
                        | c2 # r3 \<Rightarrow>
                            if c2 \<noteq> 58 then None else Some (ds, dropWhile is_space r3)))"

text \<open>
  First alternative, \<^verbatim>\<open>\[string "(?<chunk>[^"]+)"\]\<close>: the literal prefix, the longest
  non-empty run without a double quote (a shorter run would have to be followed by a double
  quote and is followed by a member of the run), then the two closing characters. The result
  is the captured identity and the rest of the headline.
\<close>

definition match_quoted :: "jsstring \<Rightarrow> (jsstring \<times> jsstring) option" where
  "match_quoted s =
     (let p = js ''[string '' @ [34]
      in if take (length p) s \<noteq> p then None
         else let r = drop (length p) s;
                  ident = takeWhile (\<lambda>c. c \<noteq> 34) r;
                  r2 = dropWhile (\<lambda>c. c \<noteq> 34) r
              in if ident = [] then None
                 else if take 2 r2 = [34, 93] then Some (ident, drop 2 r2) else None)"

text \<open>
  Second alternative, \<^verbatim>\<open>(?<direct>[^:]+)\<close>: the longest non-empty run without a colon.
\<close>

definition match_direct :: "jsstring \<Rightarrow> (jsstring \<times> jsstring) option" where
  "match_direct s =
     (let ident = takeWhile (\<lambda>c. c \<noteq> 58) s; r = dropWhile (\<lambda>c. c \<noteq> 58) s
      in if ident = [] then None else Some (ident, r))"

definition direct_exec :: "jsstring \<Rightarrow> groups option" where
  "direct_exec headline =
     (case match_direct headline of
        None \<Rightarrow> None
      | Some (ident, r) \<Rightarrow>
          (case match_tail r of
             None \<Rightarrow> None
           | Some (ds, msg) \<Rightarrow>
               Some \<lparr>chunk_group = None, direct_group = Some ident,
                     line_group = Some ds, message_group = Some msg\<rparr>))"

text \<open>
  \<^verbatim>\<open>pattern.exec(headline)\<close>: the alternatives are tried in order, and the second one is
  tried when the first or what follows it fails.
\<close>

definition pattern_exec :: "jsstring \<Rightarrow> groups option" where
  "pattern_exec headline =
     (case match_quoted headline of
        None \<Rightarrow> direct_exec headline
      | Some (ident, r) \<Rightarrow>
          (case match_tail r of
             None \<Rightarrow> direct_exec headline
           | Some (ds, msg) \<Rightarrow>
               Some \<lparr>chunk_group = Some ident, direct_group = None,
                     line_group = Some ds, message_group = Some msg\<rparr>))"

text \<open>\<^verbatim>\<open>s.replace(/^@/, '')\<close>: one leading at-sign is removed.\<close>

definition strip_at :: "jsstring \<Rightarrow> jsstring" where
  "strip_at s = (case s of [] \<Rightarrow> [] | c # r \<Rightarrow> if c = 64 then r else s)"

text \<open>\<^verbatim>\<open>stack || undefined\<close>: the empty string is falsy.\<close>

definition or_undefined :: "jsstring \<Rightarrow> jsstring option" where
  "or_undefined s = (if s = [] then None else Some s)"

definition extractErrors :: "jsstring \<Rightarrow> jsstring \<Rightarrow> SimulationError list" where
  "extractErrors rawMessage fallbackChunk =
     (let trimmed = trim rawMessage
      in if trimmed = [] then
           [\<lparr>message = js ''Unknown error raised by Roblox simulator runtime.'',
             chunkName = fallbackChunk, line = None, column = None, stack = None,
             severity = Error\<rparr>]
         else
           let lines = split_lines trimmed;
               headline = hd lines;
               stack_text = join [10] (tl lines)
           in (case pattern_exec headline of
                 None \<Rightarrow>
                   [\<lparr>message = headline, chunkName = fallbackChunk, line = None,
                     column = None, stack = or_undefined stack_text, severity = Error\<rparr>]
               | Some g \<Rightarrow>
                   let name = strip_at
                         (case chunk_group g of
                            Some c \<Rightarrow> c
                          | None \<Rightarrow>
                              (case direct_group g of Some d \<Rightarrow> d | None \<Rightarrow> fallbackChunk));
                       line_number = parseInt
                         (case line_group g of Some l \<Rightarrow> l | None \<Rightarrow> js ''1'');
                       m = trim (case message_group g of Some t \<Rightarrow> t | None \<Rightarrow> []);
                       message_text = (if m = [] then js ''Runtime error'' else m)
                   in [\<lparr>message = message_text, chunkName = name, line = line_number,
                        column = None, stack = or_undefined stack_text,
                        severity = Error\<rparr>]))"

section \<open>The interpreter as a parameter\<close>

text \<open>
  The Lua interpreter (the package \<^verbatim>\<open>fengari\<close>), the clock and the environment builder
  (\<^verbatim>\<open>buildPrelude\<close> and \<^verbatim>\<open>DEFAULT_STUBBED_SERVICES\<close> of \<^verbatim>\<open>./prelude\<close>) are not part
  of \<^verbatim>\<open>simulator.ts\<close>. They are a parameter of the model: a record of operations on a
  world \<open>'w\<close>, which holds the interpreter state and the clock. A call of the host either
  returns a value, or throws a JavaScript exception, or does not come back (a script
  that loops for ever). An exception is represented by the text that
  \<^verbatim>\<open>error instanceof Error ? error.message : String(error)\<close> gives for it.
\<close>

datatype ('a, 'w) outcome = Return 'a 'w | Throw jsstring 'w | Hang

definition and_then ::
  "('a, 'w) outcome \<Rightarrow> ('a \<Rightarrow> 'w \<Rightarrow> ('b, 'w) outcome) \<Rightarrow> ('b, 'w) outcome" where
  "and_then m f = (case m of Return a w \<Rightarrow> f a w | Throw e w \<Rightarrow> Throw e w | Hang \<Rightarrow> Hang)"

text \<open>
  An argument of a call of a logging hook is given by what the hook obtains for it with
  \<^verbatim>\<open>luaL_tolstring\<close> and \<^verbatim>\<open>to_jsstring(lua_tostring(L, -1))\<close>: its display string, or
  \<open>None\<close> when the conversion raises. A hook is the closure \<^verbatim>\<open>logger\<close> that
  \<^verbatim>\<open>registerLoggingFunction\<close> creates; the closures differ in their prefix only (they share
  the array \<^verbatim>\<open>output\<close>), so a closure is represented by its prefix. \<open>lua_pcall\<close> reports
  the status and the calls of hooks that the script made, in order.
\<close>

type_synonym lua_arg = "jsstring option"
type_synonym hook_call = "jsstring \<times> lua_arg list"

record 'w host =
  luaL_newstate :: "'w \<Rightarrow> (unit, 'w) outcome"
  luaL_openlibs :: "'w \<Rightarrow> (unit, 'w) outcome"
  lua_pushcfunction :: "jsstring \<Rightarrow> 'w \<Rightarrow> (unit, 'w) outcome"
  lua_setglobal :: "jsstring \<Rightarrow> 'w \<Rightarrow> (unit, 'w) outcome"
  performance_now :: "'w \<Rightarrow> real"
  buildPrelude :: "jsstring list \<Rightarrow> jsstring"
  DEFAULT_STUBBED_SERVICES :: "jsstring list"
  luaL_loadbuffer :: "jsstring \<Rightarrow> nat \<Rightarrow> jsstring \<Rightarrow> 'w \<Rightarrow> (nat, 'w) outcome"
  lua_pcall :: "'w \<Rightarrow> (nat \<times> hook_call list, 'w) outcome"
  to_jsstring_top :: "'w \<Rightarrow> (jsstring, 'w) outcome"
  lua_pop :: "nat \<Rightarrow> 'w \<Rightarrow> (unit, 'w) outcome"
  lua_close :: "('w \<Rightarrow> (unit, 'w) outcome) option"

text \<open>
  \<open>luaL_loadbuffer code size name\<close> and \<open>lua_pcall\<close> return the status;
  \<open>to_jsstring_top\<close> is \<^verbatim>\<open>to_jsstring(lua.lua_tostring(L, -1))\<close>; \<open>lua_close\<close> is \<open>None\<close>
  when \<^verbatim>\<open>typeof lua.lua_close\<close> is not \<^verbatim>\<open>'function'\<close>.
\<close>

definition LUA_OK :: nat where
  "LUA_OK = 0"

section \<open>The output capture bridge: \<^verbatim>\<open>registerLoggingFunction\<close>\<close>

text \<open>
  The loop of lines 180 to 184 over the stack indices \<open>1 .. top\<close>. The stack of the call is
  the list of its arguments. A conversion that raises leaves the hook at once.
\<close>

function logger_loop :: "lua_arg list \<Rightarrow> nat \<Rightarrow> jsstring list \<Rightarrow> jsstring list option" where
  "logger_loop args index buffer =
     (if index \<le> length args then
        (case args ! (index - 1) of
           None \<Rightarrow> None
         | Some s \<Rightarrow> logger_loop args (index + 1) (buffer @ [s]))
      else Some buffer)"
  by pat_completeness auto
termination
  by (relation "measure (\<lambda>(args, index, buffer). Suc (length args) - index)") auto

declare logger_loop.simps [simp del]

text \<open>
  The closure \<^verbatim>\<open>logger\<close>: the new contents of \<^verbatim>\<open>output\<close> and the number of values
  returned to the script, or \<open>None\<close> when a conversion raised (then nothing was pushed).
\<close>

definition logger :: "jsstring \<Rightarrow> lua_arg list \<Rightarrow> jsstring list \<Rightarrow> (jsstring list \<times> nat) option" where
  "logger prefix args out =
     (case logger_loop args 1 [] of
        None \<Rightarrow> None
      | Some buffer \<Rightarrow> Some (out @ [prefix @ join [9] buffer], 0))"

text \<open>The calls that a script makes while it runs, applied to \<^verbatim>\<open>output\<close> in order.\<close>

fun run_calls :: "hook_call list \<Rightarrow> jsstring list \<Rightarrow> jsstring list" where
  "run_calls [] out = out"
| "run_calls ((prefix, args) # calls) out =
     run_calls calls (case logger prefix args out of None \<Rightarrow> out | Some (out', n) \<Rightarrow> out')"

definition registerLoggingFunction ::
  "'w host \<Rightarrow> jsstring \<Rightarrow> jsstring \<Rightarrow> 'w \<Rightarrow> (unit, 'w) outcome" where
  "registerLoggingFunction h functionName prefix w =
     and_then (lua_pushcfunction h prefix w) (\<lambda>_ w1. lua_setglobal h functionName w1)"

section \<open>The execution orchestrator\<close>

text \<open>
  The two arrays \<^verbatim>\<open>errors\<close> and \<^verbatim>\<open>output\<close> of \<^verbatim>\<open>run\<close> are mutated by
  \<^verbatim>\<open>executeChunk\<close> and by the hooks; they are passed and returned as a pair.
\<close>

type_synonym arrays = "SimulationError list \<times> jsstring list"

definition executeChunk ::
  "'w host \<Rightarrow> SimulationChunk \<Rightarrow> arrays \<Rightarrow> 'w \<Rightarrow> (arrays, 'w) outcome" where
  "executeChunk h c arrs w =
     (case arrs of (errs, out) \<Rightarrow>
      and_then (luaL_loadbuffer h (code c) (length (code c)) (64 # chunkName c) w)
        (\<lambda>status w1.
           if status \<noteq> LUA_OK then
             and_then (to_jsstring_top h w1)
               (\<lambda>msg w2.
                  and_then (lua_pop h 1 w2)
                    (\<lambda>_ w3. Return (errs @ extractErrors msg (chunkName c), out) w3))
           else
             and_then (lua_pcall h w1)
               (\<lambda>(callStatus, calls) w2.
                  if callStatus \<noteq> LUA_OK then
                    and_then (to_jsstring_top h w2)
                      (\<lambda>msg w3.
                         and_then (lua_pop h 1 w3)
                           (\<lambda>_ w4.
                              Return (errs @ extractErrors msg (chunkName c),
                                      run_calls calls out) w4))
                  else Return (errs, run_calls calls out) w2)))"

text \<open>
  \<^verbatim>\<open>initializePrelude\<close> returns the diagnostic or \<^verbatim>\<open>undefined\<close>; the hooks are installed
  when it runs, so the array \<^verbatim>\<open>output\<close> is passed and returned as well.
  \<^verbatim>\<open>extractErrors(...)[0]\<close> is \<^verbatim>\<open>undefined\<close> for an empty array.
\<close>

definition first_error :: "SimulationError list \<Rightarrow> SimulationError option" where
  "first_error ds = (case ds of [] \<Rightarrow> None | d # _ \<Rightarrow> Some d)"

definition initializePrelude ::
  "'w host \<Rightarrow> jsstring list option \<Rightarrow> jsstring list \<Rightarrow> 'w
     \<Rightarrow> (SimulationError option \<times> jsstring list, 'w) outcome" where
  "initializePrelude h extraServices out w =
     (let preludeChunk =
            \<lparr>code = buildPrelude h
                      (case extraServices of
                         Some s \<Rightarrow> s
                       | None \<Rightarrow> DEFAULT_STUBBED_SERVICES h),
              chunkName = js ''@roblox-prelude''\<rparr>
      in and_then
           (luaL_loadbuffer h (code preludeChunk) (length (code preludeChunk))
              (chunkName preludeChunk) w)
           (\<lambda>status w1.
              if status \<noteq> LUA_OK then
                and_then (to_jsstring_top h w1)
                  (\<lambda>msg w2.
                     Return (first_error (extractErrors msg (chunkName preludeChunk)), out) w2)
              else
                and_then (lua_pcall h w1)
                  (\<lambda>(callStatus, calls) w2.
                     if callStatus \<noteq> LUA_OK then
                       and_then (to_jsstring_top h w2)
                         (\<lambda>msg w3.
                            Return (first_error (extractErrors msg (chunkName preludeChunk)),
                                    run_calls calls out) w3)
                     else Return (None, run_calls calls out) w2)))"

text \<open>The object that every \<^verbatim>\<open>return\<close> of \<^verbatim>\<open>run\<close> builds, at the world it is built in.\<close>

definition result_at :: "'w host \<Rightarrow> real \<Rightarrow> bool \<Rightarrow> arrays \<Rightarrow> 'w \<Rightarrow> SimulationResult" where
  "result_at h runStart ok arrs w =
     \<lparr>success = ok, durationMs = performance_now h w - runStart,
      errors = fst arrs, output = snd arrs\<rparr>"

text \<open>
  The loop of lines 114 to 124. \<open>Inl\<close> is the result of the \<^verbatim>\<open>return\<close> inside the loop,
  \<open>Inr\<close> the arrays when the loop has run to its end.
\<close>

fun run_preloads ::
  "'w host \<Rightarrow> real \<Rightarrow> SimulationChunk list \<Rightarrow> arrays \<Rightarrow> 'w
     \<Rightarrow> (SimulationResult + arrays, 'w) outcome" where
  "run_preloads h runStart [] arrs w = Return (Inr arrs) w"
| "run_preloads h runStart (preload # rest) arrs w =
     (case executeChunk h preload arrs w of
        Return arrs1 w1 \<Rightarrow>
          if fst arrs1 \<noteq> [] then Return (Inl (result_at h runStart False arrs1 w1)) w1
          else run_preloads h runStart rest arrs1 w1
      | Throw e w1 \<Rightarrow> Throw e w1
      | Hang \<Rightarrow> Hang)"

text \<open>Lines 114 to 133: the preloads and the target chunk.\<close>

definition run_rest ::
  "'w host \<Rightarrow> real \<Rightarrow> SimulationChunk list option \<Rightarrow> SimulationChunk \<Rightarrow> arrays \<Rightarrow> 'w
     \<Rightarrow> (SimulationResult, 'w) outcome" where
  "run_rest h runStart pls c arrs w =
     and_then (run_preloads h runStart (case pls of Some ps \<Rightarrow> ps | None \<Rightarrow> []) arrs w)
       (\<lambda>x w1.
          case x of
            Inl r \<Rightarrow> Return r w1
          | Inr arrs1 \<Rightarrow>
              and_then (executeChunk h c arrs1 w1)
                (\<lambda>arrs2 w2. Return (result_at h runStart (fst arrs2 = []) arrs2 w2) w2))"

text \<open>The body of the \<^verbatim>\<open>try\<close> block, lines 92 to 133.\<close>

definition run_try ::
  "'w host \<Rightarrow> SimulationOptions \<Rightarrow> real \<Rightarrow> 'w \<Rightarrow> (SimulationResult, 'w) outcome" where
  "run_try h options runStart w =
     and_then (initializePrelude h (stubbedServices options) [] w)
       (\<lambda>(preludeError, out) w1.
          case preludeError of
            Some e \<Rightarrow> Return (result_at h runStart False ([] @ [e], out) w1) w1
          | None \<Rightarrow>
              (case prelude options of
                 Some p \<Rightarrow>
                   and_then (executeChunk h p ([], out) w1)
                     (\<lambda>arrs w2.
                        if fst arrs \<noteq> [] then Return (result_at h runStart False arrs w2) w2
                        else run_rest h runStart (preloads options) (chunk options) arrs w2)
               | None \<Rightarrow>
                   run_rest h runStart (preloads options) (chunk options) ([], out) w1))"

text \<open>
  The \<^verbatim>\<open>finally\<close> block, lines 134 to 138: it runs after a \<^verbatim>\<open>return\<close> and after an
  exception; an exception of its own replaces either.
\<close>

definition run_finally :: "'w host \<Rightarrow> ('a, 'w) outcome \<Rightarrow> ('a, 'w) outcome" where
  "run_finally h m =
     (case m of
        Return r w \<Rightarrow>
          (case lua_close h of
             None \<Rightarrow> Return r w
           | Some close \<Rightarrow> and_then (close w) (\<lambda>_ w1. Return r w1))
      | Throw e w \<Rightarrow>
          (case lua_close h of
             None \<Rightarrow> Throw e w
           | Some close \<Rightarrow> and_then (close w) (\<lambda>_ w1. Throw e w1))
      | Hang \<Rightarrow> Hang)"

text \<open>Lines 81 to 86: the interpreter is created and the two hooks are installed.\<close>

definition run_begin :: "'w host \<Rightarrow> 'w \<Rightarrow> (unit, 'w) outcome" where
  "run_begin h w =
     and_then (luaL_newstate h w)
       (\<lambda>_ w1.
          and_then (luaL_openlibs h w1)
            (\<lambda>_ w2.
               and_then (registerLoggingFunction h (js ''print'') [] w2)
                 (\<lambda>_ w3. registerLoggingFunction h (js ''warn'') (js ''[warn] '') w3)))"

definition run :: "'w host \<Rightarrow> SimulationOptions \<Rightarrow> 'w \<Rightarrow> (SimulationResult, 'w) outcome" where
  "run h options w =
     and_then (run_begin h w)
       (\<lambda>_ w1. run_finally h (run_try h options (performance_now h w1) w1))"


section \<open>A small interpreter for concrete runs\<close>

text \<open>
  An instance of the parameter, used to run the model on concrete inputs. Its world holds
  a clock, the chunk that was loaded last and the error value on top of the stack (\<open>None\<close>
  when that value is no string, so that \<^verbatim>\<open>lua_tostring\<close> gives \<^verbatim>\<open>null\<close> and
  \<^verbatim>\<open>to_jsstring\<close> throws). The source text of a chunk says what the chunk does:
  \<^verbatim>\<open>syntax:M\<close> fails to compile with message \<^verbatim>\<open>M\<close> at line 1 of the chunk,
  \<^verbatim>\<open>error:T\<close> raises the error text \<^verbatim>\<open>T\<close>, \<^verbatim>\<open>print:T\<close> calls the bare logging hook
  with \<^verbatim>\<open>T\<close> and \<^verbatim>\<open>done\<close>, \<^verbatim>\<open>raise\<close> raises a value that is no string,
  \<^verbatim>\<open>loop\<close> does not end, and every other text runs without effect. Creating the
  interpreter takes 5 units of time, opening the libraries 2, compiling 1 and running 10.
  The environment builder concatenates the service names, and the default list is empty.
\<close>

record demo_world =
  clock :: real
  pending :: jsstring
  top_value :: "jsstring option"
  closed :: bool

definition demo_loadbuffer ::
  "jsstring \<Rightarrow> nat \<Rightarrow> jsstring \<Rightarrow> demo_world \<Rightarrow> (nat, demo_world) outcome" where
  "demo_loadbuffer src n name w =
     (if take 7 src = js ''syntax:''
      then Return 3 (w\<lparr>clock := clock w + 1,
                       top_value := Some (strip_at name @ js '':1: '' @ drop 7 src)\<rparr>)
      else Return 0 (w\<lparr>clock := clock w + 1, pending := src\<rparr>))"

definition demo_pcall :: "demo_world \<Rightarrow> (nat \<times> hook_call list, demo_world) outcome" where
  "demo_pcall w =
     (let src = pending w; w1 = w\<lparr>clock := clock w + 10\<rparr>
      in if take 6 src = js ''error:'' then Return (2, []) (w1\<lparr>top_value := Some (drop 6 src)\<rparr>)
         else if take 6 src = js ''print:''
           then Return (0, [([], [Some (drop 6 src), Some (js ''done'')])]) w1
         else if src = js ''raise'' then Return (2, []) (w1\<lparr>top_value := None\<rparr>)
         else if src = js ''loop'' then Hang
         else Return (0, []) w1)"

definition demo_host :: "demo_world host" where
  "demo_host =
     \<lparr>luaL_newstate = (\<lambda>w. Return () (w\<lparr>clock := clock w + 5\<rparr>)),
      luaL_openlibs = (\<lambda>w. Return () (w\<lparr>clock := clock w + 2\<rparr>)),
      lua_pushcfunction = (\<lambda>prefix w. Return () w),
      lua_setglobal = (\<lambda>name w. Return () w),
      performance_now = clock,
      buildPrelude = concat,
      DEFAULT_STUBBED_SERVICES = [],
      luaL_loadbuffer = demo_loadbuffer,
      lua_pcall = demo_pcall,
      to_jsstring_top =
        (\<lambda>w. case top_value w of
                None \<Rightarrow> Throw (js ''to_jsstring expects a Uint8Array'') w
              | Some s \<Rightarrow> Return s w),
      lua_pop = (\<lambda>n w. Return () w),
      lua_close = Some (\<lambda>w. Return () (w\<lparr>closed := True\<rparr>))\<rparr>"

definition demo_start :: demo_world where
  "demo_start = \<lparr>clock = 0, pending = [], top_value = None, closed = False\<rparr>"

definition demo_chunk :: "string \<Rightarrow> string \<Rightarrow> SimulationChunk" where
  "demo_chunk name src = \<lparr>code = js src, chunkName = js name\<rparr>"

definition demo_options :: "string \<Rightarrow> SimulationOptions" where
  "demo_options src =
     \<lparr>chunk = demo_chunk ''main'' src, prelude = None, preloads = None,
      stubbedServices = None\<rparr>"

text \<open>
  Two runs of the small interpreter that the concrete checks below refer to: a target chunk
  that raises the error text \<^verbatim>\<open>lib:1: boom\<close>, and what \<^verbatim>\<open>run\<close> returns for it.
\<close>

definition demo_failure :: SimulationResult where
  "demo_failure =
     \<lparr>success = False, durationMs = 22,
      errors = [\<lparr>message = js ''boom'', chunkName = js ''lib'', line = Some (Finite 1),
                 column = None, stack = None, severity = Error\<rparr>],
      output = []\<rparr>"

definition demo_failure_world :: demo_world where
  "demo_failure_world =
     \<lparr>clock = 29, pending = js ''error:lib:1: boom'',
      top_value = Some (js ''lib:1: boom''), closed = True\<rparr>"

section \<open>The two error shapes as sets of strings\<close>

text \<open>
  What the pattern of line 48 accepts, stated without reference to the order in which a
  backtracking matcher works: through its first alternative the headlines
  \<^verbatim>\<open>[string "\<close>\<open>ident\<close>\<^verbatim>\<open>"]:\<close>\<open>ds\<close>\<^verbatim>\<open>:\<close>\<open>rest\<close> with a non-empty \<open>ident\<close> free of double
  quotes and a non-empty run of digits \<open>ds\<close>, through its second alternative the headlines
  \<open>ident\<close>\<^verbatim>\<open>:\<close>\<open>ds\<close>\<^verbatim>\<open>:\<close>\<open>rest\<close> with a non-empty \<open>ident\<close> free of colons. The lemma
  \<open>pattern_exec_Some_iff\<close> below shows that \<open>pattern_exec\<close> finds a match exactly on
  these headlines.
\<close>

definition quoted_shape :: "jsstring \<Rightarrow> bool" where
  "quoted_shape h \<longleftrightarrow>
     (\<exists>ident ds rest.
        ident \<noteq> [] \<and> 34 \<notin> set ident \<and> ds \<noteq> [] \<and> (\<forall>c \<in> set ds. is_digit c) \<and>
        h = js ''[string '' @ [34] @ ident @ [34, 93, 58] @ ds @ [58] @ rest)"

definition direct_shape :: "jsstring \<Rightarrow> bool" where
  "direct_shape h \<longleftrightarrow>
     (\<exists>ident ds rest.
        ident \<noteq> [] \<and> 58 \<notin> set ident \<and> ds \<noteq> [] \<and> (\<forall>c \<in> set ds. is_digit c) \<and>
        h = ident @ [58] @ ds @ [58] @ rest)"

text \<open>
  The world of the small interpreter once the hooks are installed, and the result and the
  world of a run whose target chunk prints \<^verbatim>\<open>hello\<close>, at the point where \<^verbatim>\<open>run\<close>
  builds the object it returns.
\<close>

definition demo_ready :: demo_world where
  "demo_ready = \<lparr>clock = 7, pending = [], top_value = None, closed = False\<rparr>"

definition demo_printed :: SimulationResult where
  "demo_printed =
     \<lparr>success = True, durationMs = 22, errors = [],
      output = [js ''hello'' @ [9] @ js ''done'']\<rparr>"

definition demo_printed_world :: demo_world where
  "demo_printed_world =
     \<lparr>clock = 29, pending = js ''print:hello'', top_value = None, closed = False\<rparr>"

section \<open>Hosts whose calls return\<close>




section \<open>The pipeline in the words of the specification\<close>

text \<open>
  The specification describes a run as a sequence of stages after the environment setup:
  the shared bootstrap chunk when there is one, the preloads in the given order, the target
  chunk. \<open>spec_stages\<close> is that sequence. \<open>spec_pipeline\<close> follows the description, not the
  source: the stages are executed one after the other, each on the arrays and in the world
  that the stage before it left, and the first stage that leaves a diagnostic ends the run
  with a failed result; when no stage is left the run succeeds. These two definitions are
  compared below with \<open>run_try\<close>, which is translated from the source.
\<close>

definition spec_stages :: "SimulationOptions \<Rightarrow> SimulationChunk list" where
  "spec_stages options =
     (case prelude options of Some p \<Rightarrow> [p] | None \<Rightarrow> []) @
     (case preloads options of Some ps \<Rightarrow> ps | None \<Rightarrow> []) @ [chunk options]"

fun spec_pipeline ::
  "'w host \<Rightarrow> real \<Rightarrow> SimulationChunk list \<Rightarrow> arrays \<Rightarrow> 'w
     \<Rightarrow> (SimulationResult, 'w) outcome" where
  "spec_pipeline h runStart [] arrs w = Return (result_at h runStart (fst arrs = []) arrs w) w"
| "spec_pipeline h runStart (c # cs) arrs w =
     (case executeChunk h c arrs w of
        Return arrs1 w1 \<Rightarrow>
          if fst arrs1 \<noteq> [] then Return (result_at h runStart False arrs1 w1) w1
          else spec_pipeline h runStart cs arrs1 w1
      | Throw e w1 \<Rightarrow> Throw e w1
      | Hang \<Rightarrow> Hang)"

section \<open>The logging hook\<close>

text \<open>
  The loop collects the display strings of the arguments from \<open>index\<close> on, and stops
  without a result at the first argument whose conversion raises.
\<close>

lemma logger_loop_eq:
  "1 \<le> index \<Longrightarrow>
     logger_loop args index buffer =
       (if None \<in> set (drop (index - 1) args) then None
        else Some (buffer @ map the (drop (index - 1) args)))"
proof (induction "Suc (length args) - index" arbitrary: index buffer)
  case 0
  then show ?case by (subst logger_loop.simps) simp
next
  case (Suc n)
  then have le: "index \<le> length args" and lt: "index - 1 < length args" by auto
  have d: "drop (index - 1) args = args ! (index - 1) # drop index args"
    using lt Suc.prems by (metis Cons_nth_drop_Suc Suc_pred' less_eq_Suc_le One_nat_def)
  show ?case
  proof (cases "args ! (index - 1)")
    case None
    with le d show ?thesis by (subst logger_loop.simps) simp
  next
    case (Some s)
    from Suc have "logger_loop args (index + 1) (buffer @ [s]) =
       (if None \<in> set (drop (index + 1 - 1) args) then None
        else Some ((buffer @ [s]) @ map the (drop (index + 1 - 1) args)))"
      by (intro Suc.hyps) auto
    with Some le d show ?thesis by (subst logger_loop.simps) simp
  qed
qed

lemma logger_eq:
  "logger prefix args out =
     (if None \<in> set args then None
      else Some (out @ [prefix @ join [9] (map the args)], 0))"
  using logger_loop_eq[of 1 args "[]"] by (simp add: logger_def)

lemma logger_Some: "logger prefix (map Some vs) out = Some (out @ [prefix @ join [9] vs], 0)"
  by (simp add: logger_eq comp_def)

section \<open>Evaluation of the model\<close>

lemmas string_defs =
  extractErrors_def js_def trim_def is_space_def split_lines_def pattern_exec_def
  direct_exec_def match_direct_def match_quoted_def match_tail_def is_digit_def
  strip_at_def parseInt_def digit_value_def js_number_def to_double_def
  or_undefined_def Let_def

lemmas run_defs =
  run_def run_begin_def run_try_def run_finally_def run_rest_def
  registerLoggingFunction_def initializePrelude_def executeChunk_def and_then_def
  result_at_def first_error_def LUA_OK_def logger_eq

lemmas demo_defs =
  demo_host_def demo_start_def demo_options_def demo_chunk_def demo_loadbuffer_def
  demo_pcall_def

lemma demo_run_error:
  "run demo_host (demo_options ''error:lib:1: boom'') demo_start
     = Return demo_failure demo_failure_world"
  by (simp add: demo_defs run_defs string_defs demo_failure_def demo_failure_world_def)


text \<open>A line number beyond \<open>2 ^ 53\<close> is rounded as the program's double is.\<close>

lemma parseInt_rounds:
  "parseInt (js ''9007199254740993'') = Some (Finite 9007199254740992)"
  by (simp add: string_defs bitlen.simps)

section \<open>The translator returns one diagnostic\<close>

lemma extractErrors_single:
  "\<exists>d. extractErrors raw fb = [d] \<and> severity d = Error"
  by (simp add: extractErrors_def Let_def split: option.splits)

lemma first_error_extract:
  "first_error (extractErrors raw fb) = Some e \<Longrightarrow> severity e = Error"
  using extractErrors_single[of raw fb] by (auto simp: first_error_def)

section \<open>The shape of the result of a run\<close>

lemma and_then_Return:
  "and_then m f = Return b w' \<Longrightarrow> \<exists>a w. m = Return a w \<and> f a w = Return b w'"
  by (cases m) (simp_all add: and_then_def)

lemma and_then_assoc:
  "and_then (and_then m f) g = and_then m (\<lambda>a w. and_then (f a w) g)"
  by (cases m) (simp_all add: and_then_def)

lemma executeChunk_cases:
  assumes "executeChunk h c (errs, out) w = Return (errs', out') w'"
  shows "errs' = errs \<or> (\<exists>msg. errs' = errs @ extractErrors msg (chunkName c))"
  using assms unfolding executeChunk_def
  by (auto dest!: and_then_Return split: if_splits prod.splits) blast+

lemma executeChunk_errors:
  assumes "executeChunk h c ([], out) w = Return (errs, out') w'"
  shows "errs = [] \<or> (\<exists>d. errs = [d] \<and> severity d = Error)"
  using executeChunk_cases[OF assms] extractErrors_single by (metis append_Nil)

text \<open>
  A result is either a success without diagnostics or a failure with exactly one
  diagnostic, of severity \<open>Error\<close>. This holds at every \<^verbatim>\<open>return\<close> of \<^verbatim>\<open>run\<close>.
\<close>

lemma run_preloads_shape:
  "run_preloads h rs ps ([], out) w = Return x w' \<Longrightarrow>
     (case x of
        Inl r \<Rightarrow> \<not> success r \<and> (\<exists>d. errors r = [d] \<and> severity d = Error)
      | Inr arrs \<Rightarrow> fst arrs = [])"
proof (induction ps arbitrary: out w)
  case Nil
  then show ?case by auto
next
  case (Cons p ps)
  show ?case
  proof (cases "executeChunk h p ([], out) w")
    case (Return arrs1 w1)
    obtain errs out1 where a: "arrs1 = (errs, out1)" by (cases arrs1)
    show ?thesis
    proof (cases "errs = []")
      case True
      with Cons.prems Return a have "run_preloads h rs ps ([], out1) w1 = Return x w'" by simp
      then show ?thesis by (rule Cons.IH)
    next
      case False
      with executeChunk_errors[of h p out w errs out1 w1] Return a
      obtain d where "errs = [d]" "severity d = Error" by auto
      with Cons.prems Return a False show ?thesis
        by (auto simp: result_at_def)
    qed
  next
    case (Throw e w1)
    with Cons.prems show ?thesis by simp
  next
    case Hang
    with Cons.prems show ?thesis by simp
  qed
qed

lemma run_rest_shape:
  assumes "run_rest h rs pls c ([], out) w = Return r w'"
  shows "(success r \<and> errors r = []) \<or>
         (\<not> success r \<and> (\<exists>d. errors r = [d] \<and> severity d = Error))"
proof -
  from assms obtain x w1 where
    x: "run_preloads h rs (case pls of Some ps \<Rightarrow> ps | None \<Rightarrow> []) ([], out) w = Return x w1"
    and k: "(case x of Inl r \<Rightarrow> Return r w1
             | Inr arrs1 \<Rightarrow> and_then (executeChunk h c arrs1 w1)
                 (\<lambda>arrs2 w2. Return (result_at h rs (fst arrs2 = []) arrs2 w2) w2)) = Return r w'"
    unfolding run_rest_def by (auto dest!: and_then_Return)
  show ?thesis
  proof (cases x)
    case (Inl r0)
    with k run_preloads_shape[OF x] show ?thesis by simp
  next
    case (Inr arrs1)
    with run_preloads_shape[OF x] obtain out1 where a: "arrs1 = ([], out1)"
      by (cases arrs1) auto
    from k Inr a obtain arrs2 where
      e: "executeChunk h c ([], out1) w1 = Return arrs2 w'"
      and r: "r = result_at h rs (fst arrs2 = []) arrs2 w'"
      by (auto dest!: and_then_Return)
    obtain errs out2 where b: "arrs2 = (errs, out2)" by (cases arrs2)
    from executeChunk_errors[of h c out1 w1 errs out2 w'] e b r show ?thesis
      by (auto simp: result_at_def)
  qed
qed

lemma initializePrelude_severity:
  "initializePrelude h svc out w = Return (Some e, out') w' \<Longrightarrow> severity e = Error"
  unfolding initializePrelude_def Let_def
  by (auto dest!: and_then_Return first_error_extract split: if_splits prod.splits)

lemma run_try_shape:
  assumes "run_try h opts rs w = Return r w'"
  shows "(success r \<and> errors r = []) \<or>
         (\<not> success r \<and> (\<exists>d. errors r = [d] \<and> severity d = Error))"
proof -
  from assms obtain pe out w1 where
    i: "initializePrelude h (stubbedServices opts) [] w = Return (pe, out) w1"
    and k: "(case pe of
            Some e \<Rightarrow> Return (result_at h rs False ([] @ [e], out) w1) w1
          | None \<Rightarrow>
              (case prelude opts of
                 Some p \<Rightarrow>
                   and_then (executeChunk h p ([], out) w1)
                     (\<lambda>arrs w2.
                        if fst arrs \<noteq> [] then Return (result_at h rs False arrs w2) w2
                        else run_rest h rs (preloads opts) (chunk opts) arrs w2)
               | None \<Rightarrow>
                   run_rest h rs (preloads opts) (chunk opts) ([], out) w1)) = Return r w'"
    unfolding run_try_def by (auto dest!: and_then_Return)
  show ?thesis
  proof (cases pe)
    case (Some e)
    with i have "severity e = Error" by (auto dest: initializePrelude_severity)
    with k Some show ?thesis by (auto simp: result_at_def)
  next
    case None
    show ?thesis
    proof (cases "prelude opts")
      case n: None
      with k None show ?thesis by (auto dest: run_rest_shape)
    next
      case (Some p)
      with k None obtain arrs w2 where
        e: "executeChunk h p ([], out) w1 = Return arrs w2"
        and k2: "(if fst arrs \<noteq> [] then Return (result_at h rs False arrs w2) w2
                  else run_rest h rs (preloads opts) (chunk opts) arrs w2) = Return r w'"
        by (auto dest!: and_then_Return)
      obtain errs out2 where b: "arrs = (errs, out2)" by (cases arrs)
      show ?thesis
      proof (cases "errs = []")
        case True
        with k2 b show ?thesis by (auto dest: run_rest_shape)
      next
        case False
        with executeChunk_errors[of h p out w1 errs out2 w2] e b k2 show ?thesis
          by (auto simp: result_at_def)
      qed
    qed
  qed
qed

lemma run_finally_Return:
  "run_finally h m = Return r w' \<Longrightarrow> \<exists>w. m = Return r w"
  unfolding run_finally_def
  by (cases m) (auto dest!: and_then_Return split: option.splits)

lemma run_Return:
  assumes "run h opts w = Return r w'"
  shows "\<exists>w1 w2. run_begin h w = Return () w1
           \<and> run_try h opts (performance_now h w1) w1 = Return r w2
           \<and> run_finally h (Return r w2) = Return r w'"
proof -
  from assms obtain w1 where
    b: "run_begin h w = Return () w1"
    and f: "run_finally h (run_try h opts (performance_now h w1) w1) = Return r w'"
    unfolding run_def by (auto dest!: and_then_Return)
  from run_finally_Return[OF f] obtain w2 where
    t: "run_try h opts (performance_now h w1) w1 = Return r w2" by auto
  with b f show ?thesis by auto
qed

lemma run_shape:
  assumes "run h opts w = Return r w'"
  shows "(success r \<and> errors r = []) \<or>
         (\<not> success r \<and> (\<exists>d. errors r = [d] \<and> severity d = Error))"
proof -
  from run_Return[OF assms] obtain w1 w2 where
    "run_try h opts (performance_now h w1) w1 = Return r w2" by auto
  then show ?thesis by (rule run_try_shape)
qed

section \<open>The pattern and the two shapes\<close>

lemma takeWhile_run: "(\<forall>c \<in> set xs. P c) \<Longrightarrow> \<not> P y \<Longrightarrow> takeWhile P (xs @ y # ys) = xs"
  by (induction xs) auto

lemma dropWhile_run: "(\<forall>c \<in> set xs. P c) \<Longrightarrow> \<not> P y \<Longrightarrow> dropWhile P (xs @ y # ys) = y # ys"
  by (induction xs) auto

lemma match_tail_Some_iff:
  "match_tail s = Some (ds, m) \<longleftrightarrow>
     (\<exists>r3. s = 58 # ds @ 58 # r3 \<and> ds \<noteq> [] \<and> (\<forall>c \<in> set ds. is_digit c) \<and>
           m = dropWhile is_space r3)"
proof
  assume a: "match_tail s = Some (ds, m)"
  then obtain r where s: "s = 58 # r" by (auto simp: match_tail_def split: list.splits if_splits)
  from a s obtain r3 where
    ds: "ds = takeWhile is_digit r" "ds \<noteq> []" and r2: "dropWhile is_digit r = 58 # r3"
    and m: "m = dropWhile is_space r3"
    by (auto simp: match_tail_def Let_def split: list.splits if_splits)
  have "r = takeWhile is_digit r @ dropWhile is_digit r" by simp
  with ds r2 have "r = ds @ 58 # r3" by simp
  moreover from ds have "\<forall>c \<in> set ds. is_digit c" by (auto dest: set_takeWhileD)
  ultimately show "\<exists>r3. s = 58 # ds @ 58 # r3 \<and> ds \<noteq> [] \<and> (\<forall>c \<in> set ds. is_digit c) \<and>
           m = dropWhile is_space r3" using s ds m by auto
next
  assume "\<exists>r3. s = 58 # ds @ 58 # r3 \<and> ds \<noteq> [] \<and> (\<forall>c \<in> set ds. is_digit c) \<and>
           m = dropWhile is_space r3"
  then obtain r3 where s: "s = 58 # ds @ 58 # r3" and ds: "ds \<noteq> []" "\<forall>c \<in> set ds. is_digit c"
    and m: "m = dropWhile is_space r3" by auto
  have n: "\<not> is_digit 58" by (simp add: is_digit_def)
  from ds n have "takeWhile is_digit (ds @ 58 # r3) = ds" "dropWhile is_digit (ds @ 58 # r3) = 58 # r3"
    by (simp_all add: takeWhile_run dropWhile_run)
  with s ds m show "match_tail s = Some (ds, m)" by (simp add: match_tail_def)
qed

lemma match_direct_Some_iff:
  "match_direct s = Some (ident, r) \<longleftrightarrow> ident \<noteq> [] \<and> 58 \<notin> set ident \<and> s = ident @ r \<and> (r = [] \<or> hd r = 58)"
proof
  assume a: "match_direct s = Some (ident, r)"
  then have i: "ident = takeWhile (\<lambda>c. c \<noteq> 58) s" "r = dropWhile (\<lambda>c. c \<noteq> 58) s" "ident \<noteq> []"
    by (auto simp: match_direct_def Let_def split: if_splits)
  then have "s = ident @ r" by simp
  moreover from i have "58 \<notin> set ident" by (auto dest: set_takeWhileD)
  moreover from i have "r = [] \<or> hd r = 58" using hd_dropWhile[of "\<lambda>c. c \<noteq> 58" s] by auto
  ultimately show "ident \<noteq> [] \<and> 58 \<notin> set ident \<and> s = ident @ r \<and> (r = [] \<or> hd r = 58)" using i by simp
next
  assume a: "ident \<noteq> [] \<and> 58 \<notin> set ident \<and> s = ident @ r \<and> (r = [] \<or> hd r = 58)"
  then have all: "\<forall>c \<in> set ident. c \<noteq> 58" by auto
  from a have "r = [] \<or> (\<exists>t. r = 58 # t)" by (cases r) auto
  then show "match_direct s = Some (ident, r)"
  proof
    assume "r = []"
    with a all show ?thesis by (simp add: match_direct_def Let_def takeWhile_eq_all_conv[THEN iffD2] dropWhile_eq_Nil_conv[THEN iffD2])
  next
    assume "\<exists>t. r = 58 # t"
    then obtain t where "r = 58 # t" ..
    with a all show ?thesis by (simp add: match_direct_def Let_def takeWhile_run dropWhile_run)
  qed
qed

lemma match_quoted_Some_iff:
  "match_quoted s = Some (ident, r) \<longleftrightarrow>
     ident \<noteq> [] \<and> 34 \<notin> set ident \<and> s = js ''[string '' @ [34] @ ident @ [34, 93] @ r"
proof
  let ?p = "js ''[string '' @ [34]"
  assume a: "match_quoted s = Some (ident, r)"
  then have p: "take (length ?p) s = ?p"
    by (auto simp: match_quoted_def Let_def split: if_splits)
  define r0 where "r0 = drop (length ?p) s"
  from p have s: "s = ?p @ r0" unfolding r0_def by (metis append_take_drop_id)
  from a p have i: "ident = takeWhile (\<lambda>c. c \<noteq> 34) r0" "ident \<noteq> []"
    and t: "take 2 (dropWhile (\<lambda>c. c \<noteq> 34) r0) = [34, 93]"
    and r: "r = drop 2 (dropWhile (\<lambda>c. c \<noteq> 34) r0)"
    unfolding r0_def by (auto simp: match_quoted_def Let_def split: if_splits)
  from t r have "dropWhile (\<lambda>c. c \<noteq> 34) r0 = [34, 93] @ r" by (metis append_take_drop_id)
  with i have "r0 = ident @ [34, 93] @ r" by (metis takeWhile_dropWhile_id)
  moreover from i have "34 \<notin> set ident" by (auto dest: set_takeWhileD)
  ultimately show "ident \<noteq> [] \<and> 34 \<notin> set ident \<and> s = js ''[string '' @ [34] @ ident @ [34, 93] @ r"
    using s i by simp
next
  assume a: "ident \<noteq> [] \<and> 34 \<notin> set ident \<and> s = js ''[string '' @ [34] @ ident @ [34, 93] @ r"
  then have all: "\<forall>c \<in> set ident. c \<noteq> 34" by auto
  have tw: "takeWhile (\<lambda>c. c \<noteq> 34) (ident @ 34 # 93 # r) = ident"
    using all by (simp add: takeWhile_run)
  have dw: "dropWhile (\<lambda>c. c \<noteq> 34) (ident @ 34 # 93 # r) = 34 # 93 # r"
    using all by (simp add: dropWhile_run)
  from a tw dw show "match_quoted s = Some (ident, r)"
    by (simp add: match_quoted_def js_def)
qed

lemma pattern_exec_Some_iff:
  "pattern_exec h \<noteq> None \<longleftrightarrow> quoted_shape h \<or> direct_shape h"
proof
  assume a: "pattern_exec h \<noteq> None"
  show "quoted_shape h \<or> direct_shape h"
  proof (cases "\<exists>ident r ds m. match_quoted h = Some (ident, r) \<and> match_tail r = Some (ds, m)")
    case True
    then obtain ident r ds m where q: "match_quoted h = Some (ident, r)"
      and t: "match_tail r = Some (ds, m)" by auto
    from q[unfolded match_quoted_Some_iff] t[unfolded match_tail_Some_iff]
    have "quoted_shape h" unfolding quoted_shape_def by auto
    then show ?thesis ..
  next
    case False
    with a have "direct_exec h \<noteq> None"
      by (auto simp: pattern_exec_def split: option.splits prod.splits)
    then obtain ident r ds m where d: "match_direct h = Some (ident, r)"
      and t: "match_tail r = Some (ds, m)"
      by (auto simp: direct_exec_def split: option.splits prod.splits)
    from d[unfolded match_direct_Some_iff] t[unfolded match_tail_Some_iff]
    have "direct_shape h" unfolding direct_shape_def by auto
    then show ?thesis ..
  qed
next
  assume "quoted_shape h \<or> direct_shape h"
  then show "pattern_exec h \<noteq> None"
  proof
    assume "quoted_shape h"
    then obtain ident ds rest where i: "ident \<noteq> []" "34 \<notin> set ident" and d: "ds \<noteq> []" "\<forall>c \<in> set ds. is_digit c"
      and h: "h = js ''[string '' @ [34] @ ident @ [34, 93, 58] @ ds @ [58] @ rest"
      unfolding quoted_shape_def by auto
    from i h have "match_quoted h = Some (ident, 58 # ds @ 58 # rest)"
      by (simp add: match_quoted_Some_iff)
    moreover from d have "match_tail (58 # ds @ 58 # rest) = Some (ds, dropWhile is_space rest)"
      by (simp add: match_tail_Some_iff)
    ultimately show ?thesis by (simp add: pattern_exec_def)
  next
    assume "direct_shape h"
    then obtain ident ds rest where i: "ident \<noteq> []" "58 \<notin> set ident" and d: "ds \<noteq> []" "\<forall>c \<in> set ds. is_digit c"
      and h: "h = ident @ [58] @ ds @ [58] @ rest"
      unfolding direct_shape_def by auto
    from i h have "match_direct h = Some (ident, 58 # ds @ 58 # rest)"
      by (simp add: match_direct_Some_iff)
    moreover from d have "match_tail (58 # ds @ 58 # rest) = Some (ds, dropWhile is_space rest)"
      by (simp add: match_tail_Some_iff)
    ultimately have "direct_exec h \<noteq> None" by (simp add: direct_exec_def)
    then show ?thesis by (auto simp: pattern_exec_def split: option.splits prod.splits)
  qed
qed

section \<open>Lines of a trimmed text\<close>

lemma trim_last_not_space: "trim s \<noteq> [] \<Longrightarrow> \<not> is_space (last (trim s))"
proof -
  assume a: "trim s \<noteq> []"
  let ?t = "dropWhile is_space (rev (dropWhile is_space s))"
  from a have n: "?t \<noteq> []" by (simp add: trim_def)
  then have "\<not> is_space (hd ?t)" by (rule hd_dropWhile)
  moreover have "last (trim s) = hd ?t" using n by (simp add: trim_def last_rev)
  ultimately show ?thesis by simp
qed

lemma split_from_not_Nil: "split_from cur s \<noteq> []"
  by (induction cur s rule: split_from.induct) auto

lemma split_from_last:
  "s \<noteq> [] \<Longrightarrow> last s \<noteq> 10 \<Longrightarrow> last (split_from cur s) \<noteq> []"
proof (induction cur s rule: split_from.induct)
  case (1 cur)
  then show ?case by simp
next
  case (2 cur c)
  then show ?case by simp
next
  case (3 cur c d cs)
  show ?case
  proof (cases "c = 13 \<and> d = 10")
    case True
    with "3.prems" have "cs \<noteq> []" by auto
    with True "3.prems" "3.IH"(1) show ?thesis by (simp add: split_from_not_Nil)
  next
    case False
    with "3.prems" "3.IH"(2,3) show ?thesis by (auto simp: split_from_not_Nil)
  qed
qed

lemma join_not_Nil: "xs \<noteq> [] \<Longrightarrow> last xs \<noteq> [] \<Longrightarrow> join sep xs \<noteq> []"
  by (induction sep xs rule: join.induct) auto

lemma stack_present:
  assumes "trim raw \<noteq> []" and "tl (split_lines (trim raw)) \<noteq> []"
  shows "join [10] (tl (split_lines (trim raw))) \<noteq> []"
proof -
  from assms(1) have "last (trim raw) \<noteq> 10"
    using trim_last_not_space[of raw] by (auto simp: is_space_def)
  with assms(1) have "last (split_lines (trim raw)) \<noteq> []"
    unfolding split_lines_def by (rule split_from_last)
  moreover have "last (tl (split_lines (trim raw))) = last (split_lines (trim raw))"
    using assms(2) by (cases "split_lines (trim raw)") auto
  ultimately show ?thesis using assms(2) by (simp add: join_not_Nil)
qed

section \<open>The duration of a run\<close>

lemma run_preloads_duration:
  "run_preloads h rs ps arrs w = Return (Inl r) w' \<Longrightarrow>
     durationMs r = performance_now h w' - rs"
proof (induction ps arbitrary: arrs w)
  case Nil
  then show ?case by simp
next
  case (Cons p ps)
  show ?case
  proof (cases "executeChunk h p arrs w")
    case (Return arrs1 w1)
    show ?thesis
    proof (cases "fst arrs1 = []")
      case True
      with Cons.prems Return have "run_preloads h rs ps arrs1 w1 = Return (Inl r) w'" by simp
      then show ?thesis by (rule Cons.IH)
    next
      case False
      with Cons.prems Return show ?thesis by (auto simp: result_at_def)
    qed
  next
    case (Throw e w1)
    with Cons.prems show ?thesis by simp
  next
    case Hang
    with Cons.prems show ?thesis by simp
  qed
qed

lemma run_rest_duration:
  assumes "run_rest h rs pls c arrs w = Return r w'"
  shows "durationMs r = performance_now h w' - rs"
proof -
  from assms obtain x w1 where
    x: "run_preloads h rs (case pls of Some ps \<Rightarrow> ps | None \<Rightarrow> []) arrs w = Return x w1"
    and k: "(case x of Inl r \<Rightarrow> Return r w1
             | Inr arrs1 \<Rightarrow> and_then (executeChunk h c arrs1 w1)
                 (\<lambda>arrs2 w2. Return (result_at h rs (fst arrs2 = []) arrs2 w2) w2)) = Return r w'"
    unfolding run_rest_def by (auto dest!: and_then_Return)
  show ?thesis
  proof (cases x)
    case (Inl r0)
    with k x show ?thesis by (auto dest: run_preloads_duration)
  next
    case (Inr arrs1)
    with k show ?thesis by (auto dest!: and_then_Return simp: result_at_def)
  qed
qed

lemma run_try_duration:
  assumes "run_try h opts rs w = Return r w'"
  shows "durationMs r = performance_now h w' - rs"
  using assms unfolding run_try_def
  by (auto dest!: and_then_Return simp: result_at_def split: option.splits if_splits)
     (erule run_rest_duration)+

section \<open>Runs that stop early\<close>

lemma run_rest_prefix:
  "i < length ps \<Longrightarrow> run_rest h rs (Some (take i ps)) (ps ! i) arrs w = Return r w' \<Longrightarrow>
     \<not> success r \<Longrightarrow> run_rest h rs (Some ps) c arrs w = Return r w'"
proof (induction ps arbitrary: i arrs w)
  case Nil
  then show ?case by simp
next
  case (Cons p ps)
  show ?case
  proof (cases i)
    case 0
    with Cons.prems obtain arrs2 where
      e: "executeChunk h p arrs w = Return arrs2 w'"
      and r: "r = result_at h rs (fst arrs2 = []) arrs2 w'"
      by (auto simp: run_rest_def and_then_def split: outcome.splits)
    from r Cons.prems(3) have "fst arrs2 \<noteq> []" by (auto simp: result_at_def)
    with e r show ?thesis by (simp add: run_rest_def and_then_def)
  next
    case (Suc j)
    show ?thesis
    proof (cases "executeChunk h p arrs w")
      case (Return arrs1 w1)
      show ?thesis
      proof (cases "fst arrs1 = []")
        case True
        with Cons.prems Suc Return have
          "run_rest h rs (Some (take j ps)) (ps ! j) arrs1 w1 = Return r w'"
          by (simp add: run_rest_def)
        with Cons.prems Suc have "run_rest h rs (Some ps) c arrs1 w1 = Return r w'"
          by (intro Cons.IH) auto
        with True Return show ?thesis by (simp add: run_rest_def)
      next
        case False
        with Cons.prems Suc Return show ?thesis by (auto simp: run_rest_def and_then_def)
      qed
    next
      case (Throw e w1)
      with Cons.prems Suc show ?thesis by (simp add: run_rest_def and_then_def)
    next
      case Hang
      with Cons.prems Suc show ?thesis by (simp add: run_rest_def and_then_def)
    qed
  qed
qed

lemma run_try_preload_prefix:
  assumes "preloads opts = Some ps" and "i < length ps"
    and "run_try h (opts\<lparr>preloads := Some (take i ps), chunk := ps ! i\<rparr>) rs w = Return r w'"
    and "\<not> success r"
  shows "run_try h opts rs w = Return r w'"
  using assms unfolding run_try_def
  by (auto simp: and_then_def dest: run_rest_prefix split: outcome.splits option.splits if_splits)

lemma run_try_bootstrap_prefix:
  assumes "prelude opts = Some p"
    and "run_try h (opts\<lparr>prelude := None, preloads := None, chunk := p\<rparr>) rs w = Return r w'"
    and "\<not> success r"
  shows "run_try h opts rs w = Return r w'"
  using assms unfolding run_try_def run_rest_def
  by (auto simp: and_then_def result_at_def split: outcome.splits option.splits if_splits)

lemma run_from_try:
  assumes "run h opts' w = Return r w'"
    and "\<And>w1 w2. run_try h opts' (performance_now h w1) w1 = Return r w2 \<Longrightarrow>
            run_try h opts (performance_now h w1) w1 = Return r w2"
  shows "run h opts w = Return r w'"
proof -
  from run_Return[OF assms(1)] obtain w1 w2 where
    b: "run_begin h w = Return () w1"
    and t: "run_try h opts' (performance_now h w1) w1 = Return r w2"
    and f: "run_finally h (Return r w2) = Return r w'" by auto
  from assms(2)[OF t] b f show ?thesis by (simp add: run_def and_then_def)
qed

section \<open>The chunk name of a diagnostic\<close>

text \<open>
  When a raw text begins with a stretch \<open>a\<close> that starts and ends with a code unit that is
  no white space and holds no line feed, trimming keeps \<open>a\<close> and the headline begins with
  \<open>a\<close>. Both shapes end their identity and line part with a colon, so this gives the
  chunk name and the line of the diagnostic for every raw text of either shape.
\<close>

lemma dropWhile_append_keep:
  "ys \<noteq> [] \<Longrightarrow> \<not> P (hd ys) \<Longrightarrow> dropWhile P (xs @ ys) = dropWhile P xs @ ys"
  by (induction xs) (auto simp: dropWhile_eq_Cons_conv hd_conv_nth neq_Nil_conv)

lemma trim_keeps_prefix:
  assumes "a \<noteq> []" and "\<not> is_space (hd a)" and "\<not> is_space (last a)"
  shows "trim (a @ rest) = a @ rev (dropWhile is_space (rev rest))"
proof -
  have "dropWhile is_space (a @ rest) = a @ rest"
    using assms(1,2) by (cases a) auto
  moreover have "dropWhile is_space (rev rest @ rev a) = dropWhile is_space (rev rest) @ rev a"
    using assms(1,3) by (intro dropWhile_append_keep) (auto simp: hd_rev)
  ultimately show ?thesis by (simp add: trim_def)
qed

lemma split_from_hd_cur: "\<exists>t. hd (split_from cur r) = cur @ t"
  by (induction cur r rule: split_from.induct) auto

lemma split_from_hd_prefix:
  "10 \<notin> set a \<Longrightarrow> (a \<noteq> [] \<longrightarrow> last a \<noteq> 13) \<Longrightarrow> \<exists>t. hd (split_from cur (a @ r)) = cur @ a @ t"
proof (induction a arbitrary: cur)
  case Nil
  then show ?case using split_from_hd_cur[of cur r] by simp
next
  case (Cons x a)
  show ?case
  proof (cases "a @ r")
    case Nil
    with Cons.prems show ?thesis by simp
  next
    case (Cons d cs)
    have nsep: "\<not> (x = 13 \<and> d = 10)"
    proof
      assume s: "x = 13 \<and> d = 10"
      with Cons Cons.prems(1) have "a = []" by (cases a) auto
      with s Cons.prems(2) show False by simp
    qed
    from Cons.prems have x: "x \<noteq> 10" by auto
    from Cons.prems have "10 \<notin> set a" "a \<noteq> [] \<longrightarrow> last a \<noteq> 13" by auto
    from Cons.IH[OF this, of "cur @ [x]"] obtain t where
      "hd (split_from (cur @ [x]) (a @ r)) = (cur @ [x]) @ a @ t" ..
    with Cons nsep x show ?thesis by auto
  qed
qed

lemma headline_keeps_prefix:
  assumes "a \<noteq> []" and "\<not> is_space (hd a)" and "\<not> is_space (last a)" and "10 \<notin> set a"
  shows "\<exists>t. trim (a @ rest) \<noteq> [] \<and> hd (split_lines (trim (a @ rest))) = a @ t"
proof -
  from assms(3) have "last a \<noteq> 13" by (auto simp: is_space_def)
  with assms(4) obtain t where
    "hd (split_from [] (a @ rev (dropWhile is_space (rev rest)))) = [] @ a @ t"
    using split_from_hd_prefix[of a "[]" "rev (dropWhile is_space (rev rest))"] by auto
  with assms(1) show ?thesis
    by (auto simp: trim_keeps_prefix[OF assms(1,2,3)] split_lines_def)
qed

lemma digit_not_space: "is_digit c \<Longrightarrow> \<not> is_space c"
  by (auto simp: is_digit_def is_space_def)

lemma parseInt_digits:
  assumes "ds \<noteq> []" and "\<forall>c \<in> set ds. is_digit c"
  shows "parseInt ds = Some (js_number False (digit_value ds))"
proof -
  from assms obtain c cs where ds: "ds = c # cs" and c: "is_digit c" by (cases ds) auto
  from c have "\<not> is_space c" "c \<noteq> 43" "c \<noteq> 45" by (auto simp: is_digit_def is_space_def)
  moreover have "takeWhile is_digit ds = ds" using assms(2) by (simp add: takeWhile_eq_all_conv)
  ultimately show ?thesis using ds assms(1) by (simp add: parseInt_def)
qed

lemma match_quoted_None: "hd s \<noteq> 91 \<Longrightarrow> match_quoted s = None"
  by (cases s) (auto simp: match_quoted_def js_def)

lemma extractErrors_direct_identity:
  assumes i: "ident \<noteq> []" "\<not> is_space (hd ident)" "hd ident \<noteq> 91" "58 \<notin> set ident"
             "10 \<notin> set ident"
    and d: "ds \<noteq> []" "\<forall>c \<in> set ds. is_digit c"
  shows "\<exists>m s. extractErrors (ident @ [58] @ ds @ [58] @ rest) fb =
           [\<lparr>message = m, chunkName = strip_at ident, line = Some (js_number False (digit_value ds)),
             column = None, stack = s, severity = Error\<rparr>]"
proof -
  let ?a = "ident @ [58] @ ds @ [58]"
  have nl: "10 \<notin> set ?a" using i(5) d(2) by (auto simp: is_digit_def)
  have "hd ?a = hd ident" using i(1) by simp
  with i(2) have hs: "\<not> is_space (hd ?a)" by simp
  have ls: "\<not> is_space (last ?a)" by (simp add: is_space_def)
  from headline_keeps_prefix[of ?a rest, OF _ hs ls nl] obtain t where
    tr: "trim (?a @ rest) \<noteq> []" and hl: "hd (split_lines (trim (?a @ rest))) = ?a @ t" by auto
  have q: "match_quoted (?a @ t) = None"
    using i(1,3) by (intro match_quoted_None) simp
  have m: "match_direct (?a @ t) = Some (ident, 58 # ds @ 58 # t)"
    using i(1,4) by (simp add: match_direct_Some_iff)
  have mt: "match_tail (58 # ds @ 58 # t) = Some (ds, dropWhile is_space t)"
    using d by (simp add: match_tail_Some_iff)
  from q m mt have "pattern_exec (?a @ t) =
      Some \<lparr>chunk_group = None, direct_group = Some ident, line_group = Some ds,
            message_group = Some (dropWhile is_space t)\<rparr>"
    by (simp add: pattern_exec_def direct_exec_def)
  with tr hl parseInt_digits[OF d] show ?thesis
    by (simp add: extractErrors_def Let_def)
qed

lemma extractErrors_quoted_identity:
  assumes i: "ident \<noteq> []" "34 \<notin> set ident" "10 \<notin> set ident"
    and d: "ds \<noteq> []" "\<forall>c \<in> set ds. is_digit c"
  shows "\<exists>m s. extractErrors (js ''[string '' @ [34] @ ident @ [34, 93, 58] @ ds @ [58] @ rest) fb =
           [\<lparr>message = m, chunkName = strip_at ident, line = Some (js_number False (digit_value ds)),
             column = None, stack = s, severity = Error\<rparr>]"
proof -
  let ?a = "js ''[string '' @ [34] @ ident @ [34, 93, 58] @ ds @ [58]"
  have nl: "10 \<notin> set ?a" using i(3) d(2) by (auto simp: is_digit_def js_def)
  have hs: "\<not> is_space (hd ?a)" by (simp add: js_def is_space_def)
  have ls: "\<not> is_space (last ?a)" by (simp add: is_space_def)
  from headline_keeps_prefix[of ?a rest, OF _ hs ls nl] obtain t where
    tr: "trim (?a @ rest) \<noteq> []" and hl: "hd (split_lines (trim (?a @ rest))) = ?a @ t" by auto
  have q: "match_quoted (?a @ t) = Some (ident, 58 # ds @ 58 # t)"
    using i(1,2) by (simp add: match_quoted_Some_iff)
  have mt: "match_tail (58 # ds @ 58 # t) = Some (ds, dropWhile is_space t)"
    using d by (simp add: match_tail_Some_iff)
  from q mt have "pattern_exec (?a @ t) =
      Some \<lparr>chunk_group = Some ident, direct_group = None, line_group = Some ds,
            message_group = Some (dropWhile is_space t)\<rparr>"
    by (simp add: pattern_exec_def)
  with tr hl parseInt_digits[OF d] show ?thesis
    by (simp add: extractErrors_def Let_def)
qed

lemma extractErrors_fallback_identity:
  assumes "trim raw = [] \<or> (\<not> quoted_shape (hd (split_lines (trim raw))) \<and>
                             \<not> direct_shape (hd (split_lines (trim raw))))"
  shows "\<exists>m s. extractErrors raw fb =
           [\<lparr>message = m, chunkName = fb, line = None, column = None, stack = s,
             severity = Error\<rparr>]"
proof (cases "trim raw = []")
  case True
  then show ?thesis by (simp add: extractErrors_def)
next
  case False
  with assms have "pattern_exec (hd (split_lines (trim raw))) = None"
    using pattern_exec_Some_iff by blast
  with False show ?thesis by (simp add: extractErrors_def Let_def)
qed

section \<open>A run returns when the calls of the host return\<close>












section \<open>Setup failures and the identity of a headline\<close>

text \<open>
  What \<^verbatim>\<open>initializePrelude\<close> returns for each status that the interpreter reports, and
  the chunk name that the translator gives for a headline of either shape: the captured
  identity with one leading \<^verbatim>\<open>@\<close> removed.
\<close>

lemma initializePrelude_load_failure:
  assumes "src = buildPrelude h (case services of Some s \<Rightarrow> s | None \<Rightarrow> DEFAULT_STUBBED_SERVICES h)"
    and "luaL_loadbuffer h src (length src) (js ''@roblox-prelude'') w = Return status w1"
    and "status \<noteq> LUA_OK"
    and "to_jsstring_top h w1 = Return raw w2"
  shows "\<exists>d. extractErrors raw (js ''@roblox-prelude'') = [d] \<and>
             initializePrelude h services out w = Return (Some d, out) w2"
proof -
  from extractErrors_single[of raw "js ''@roblox-prelude''"] obtain d where
    d: "extractErrors raw (js ''@roblox-prelude'') = [d]" by auto
  with assms have "initializePrelude h services out w = Return (Some d, out) w2"
    by (simp add: initializePrelude_def and_then_def first_error_def)
  with d show ?thesis by blast
qed

lemma initializePrelude_call_failure:
  assumes "src = buildPrelude h (case services of Some s \<Rightarrow> s | None \<Rightarrow> DEFAULT_STUBBED_SERVICES h)"
    and "luaL_loadbuffer h src (length src) (js ''@roblox-prelude'') w = Return LUA_OK w1"
    and "lua_pcall h w1 = Return (callStatus, calls) w2"
    and "callStatus \<noteq> LUA_OK"
    and "to_jsstring_top h w2 = Return raw w3"
  shows "\<exists>d. extractErrors raw (js ''@roblox-prelude'') = [d] \<and>
             initializePrelude h services out w = Return (Some d, run_calls calls out) w3"
proof -
  from extractErrors_single[of raw "js ''@roblox-prelude''"] obtain d where
    d: "extractErrors raw (js ''@roblox-prelude'') = [d]" by auto
  with assms have "initializePrelude h services out w = Return (Some d, run_calls calls out) w3"
    by (simp add: initializePrelude_def and_then_def first_error_def)
  with d show ?thesis by blast
qed

lemma initializePrelude_success:
  assumes "src = buildPrelude h (case services of Some s \<Rightarrow> s | None \<Rightarrow> DEFAULT_STUBBED_SERVICES h)"
    and "luaL_loadbuffer h src (length src) (js ''@roblox-prelude'') w = Return LUA_OK w1"
    and "lua_pcall h w1 = Return (LUA_OK, calls) w2"
  shows "initializePrelude h services out w = Return (None, run_calls calls out) w2"
  using assms by (simp add: initializePrelude_def and_then_def)

lemma extractErrors_quoted_headline:
  assumes "trim raw \<noteq> []"
    and "hd (split_lines (trim raw)) = js ''[string '' @ [34] @ ident @ [34, 93, 58] @ ds @ [58] @ rest"
    and "ident \<noteq> []" and "34 \<notin> set ident" and "ds \<noteq> []" and "\<forall>x \<in> set ds. is_digit x"
  shows "map SimulationError.chunkName (extractErrors raw fb) = [strip_at ident]"
proof -
  let ?h = "hd (split_lines (trim raw))"
  from assms have q: "match_quoted ?h = Some (ident, 58 # ds @ 58 # rest)"
    by (simp add: match_quoted_Some_iff)
  from assms have t: "match_tail (58 # ds @ 58 # rest) = Some (ds, dropWhile is_space rest)"
    by (simp add: match_tail_Some_iff)
  from q t have "pattern_exec ?h =
      Some \<lparr>chunk_group = Some ident, direct_group = None, line_group = Some ds,
            message_group = Some (dropWhile is_space rest)\<rparr>"
    by (simp add: pattern_exec_def)
  with assms(1) show ?thesis by (simp add: extractErrors_def Let_def)
qed

lemma pattern_exec_not_quoted:
  assumes "\<not> quoted_shape h"
  shows "pattern_exec h = direct_exec h"
proof (cases "match_quoted h")
  case None
  then show ?thesis by (simp add: pattern_exec_def)
next
  case (Some p)
  obtain i r where p: "p = (i, r)" by (cases p)
  show ?thesis
  proof (cases "match_tail r")
    case None
    with Some p show ?thesis by (simp add: pattern_exec_def)
  next
    case (Some q)
    obtain ds m where q: "q = (ds, m)" by (cases q)
    from \<open>match_quoted h = Some p\<close>[unfolded p match_quoted_Some_iff]
         Some[unfolded q match_tail_Some_iff]
    have "quoted_shape h" unfolding quoted_shape_def by auto
    with assms show ?thesis by simp
  qed
qed

lemma extractErrors_direct_headline:
  assumes "trim raw \<noteq> []"
    and "\<not> quoted_shape (hd (split_lines (trim raw)))"
    and "hd (split_lines (trim raw)) = ident @ [58] @ ds @ [58] @ rest"
    and "ident \<noteq> []" and "58 \<notin> set ident" and "ds \<noteq> []" and "\<forall>x \<in> set ds. is_digit x"
  shows "map SimulationError.chunkName (extractErrors raw fb) = [strip_at ident]"
proof -
  let ?h = "hd (split_lines (trim raw))"
  from assms have m: "match_direct ?h = Some (ident, 58 # ds @ 58 # rest)"
    by (simp add: match_direct_Some_iff)
  from assms have t: "match_tail (58 # ds @ 58 # rest) = Some (ds, dropWhile is_space rest)"
    by (simp add: match_tail_Some_iff)
  from m t pattern_exec_not_quoted[OF assms(2)] have "pattern_exec ?h =
      Some \<lparr>chunk_group = None, direct_group = Some ident, line_group = Some ds,
            message_group = Some (dropWhile is_space rest)\<rparr>"
    by (simp add: direct_exec_def)
  with assms(1) show ?thesis by (simp add: extractErrors_def Let_def)
qed

section \<open>The source refines the pipeline of the specification\<close>

lemma run_rest_list_pipeline:
  "and_then (run_preloads h rs ps arrs w)
       (\<lambda>x w1.
          case x of
            Inl r \<Rightarrow> Return r w1
          | Inr arrs1 \<Rightarrow>
              and_then (executeChunk h c arrs1 w1)
                (\<lambda>arrs2 w2. Return (result_at h rs (fst arrs2 = []) arrs2 w2) w2))
   = spec_pipeline h rs (ps @ [c]) arrs w"
proof (induction ps arbitrary: arrs w)
  case Nil
  show ?case by (cases "executeChunk h c arrs w") (auto simp: and_then_def)
next
  case (Cons p ps)
  show ?case
  proof (cases "executeChunk h p arrs w")
    case (Return arrs1 w1)
    with Cons.IH[of arrs1 w1] show ?thesis by (simp add: and_then_def)
  next
    case (Throw e w1)
    then show ?thesis by (simp add: and_then_def)
  next
    case Hang
    then show ?thesis by (simp add: and_then_def)
  qed
qed

lemma run_rest_pipeline:
  "run_rest h rs pls c arrs w
     = spec_pipeline h rs ((case pls of Some ps \<Rightarrow> ps | None \<Rightarrow> []) @ [c]) arrs w"
  unfolding run_rest_def by (rule run_rest_list_pipeline)

lemma run_try_pipeline:
  "run_try h opts rs w =
     and_then (initializePrelude h (stubbedServices opts) [] w)
       (\<lambda>(e, out) w1.
          case e of
            Some d \<Rightarrow> Return (result_at h rs False ([d], out) w1) w1
          | None \<Rightarrow> spec_pipeline h rs (spec_stages opts) ([], out) w1)"
proof -
  have "(case prelude opts of
                 Some p \<Rightarrow>
                   and_then (executeChunk h p ([], out) w1)
                     (\<lambda>arrs w2.
                        if fst arrs \<noteq> [] then Return (result_at h rs False arrs w2) w2
                        else run_rest h rs (preloads opts) (chunk opts) arrs w2)
               | None \<Rightarrow>
                   run_rest h rs (preloads opts) (chunk opts) ([], out) w1)
        = spec_pipeline h rs (spec_stages opts) ([], out) w1" for out w1
    by (cases "prelude opts")
       (auto simp: spec_stages_def run_rest_pipeline and_then_def split: outcome.splits)
  then show ?thesis
    unfolding run_try_def
    by (auto simp: and_then_def split: outcome.splits option.splits)
qed

lemma executeChunk_load_failure:
  assumes "luaL_loadbuffer h (code c) (length (code c)) (64 # chunkName c) w = Return status wa"
    and "status \<noteq> LUA_OK"
    and "to_jsstring_top h wa = Return msg wb"
    and "lua_pop h 1 wb = Return () wc"
  shows "executeChunk h c (errs, out) w
           = Return (errs @ extractErrors msg (chunkName c), out) wc"
  using assms by (simp add: executeChunk_def and_then_def)

lemma executeChunk_call_failure:
  assumes "luaL_loadbuffer h (code c) (length (code c)) (64 # chunkName c) w = Return LUA_OK wa"
    and "lua_pcall h wa = Return (callStatus, calls) wb"
    and "callStatus \<noteq> LUA_OK"
    and "to_jsstring_top h wb = Return msg wc"
    and "lua_pop h 1 wc = Return () wd"
  shows "executeChunk h c (errs, out) w
           = Return (errs @ extractErrors msg (chunkName c), run_calls calls out) wd"
  using assms by (simp add: executeChunk_def and_then_def)

lemma executeChunk_success:
  assumes "luaL_loadbuffer h (code c) (length (code c)) (64 # chunkName c) w = Return LUA_OK wa"
    and "lua_pcall h wa = Return (LUA_OK, calls) wb"
  shows "executeChunk h c (errs, out) w = Return (errs, run_calls calls out) wb"
  using assms by (simp add: executeChunk_def and_then_def)

lemma extractErrors_not_Nil: "extractErrors raw fb \<noteq> []"
  using extractErrors_single[of raw fb] by auto




section \<open>Failures of a stage, exceptions and the finally block\<close>

lemma spec_pipeline_append:
  "spec_pipeline h rs pre arrs w = Return r0 wc \<Longrightarrow> success r0 \<Longrightarrow>
     spec_pipeline h rs (pre @ cs) arrs w = spec_pipeline h rs cs ([], output r0) wc"
proof (induction pre arbitrary: arrs w)
  case Nil
  then show ?case by (cases arrs) (auto simp: result_at_def)
next
  case (Cons p pre)
  show ?case
  proof (cases "executeChunk h p arrs w")
    case (Return arrs1 w1)
    show ?thesis
    proof (cases "fst arrs1 = []")
      case True
      with Cons.prems Return have "spec_pipeline h rs pre arrs1 w1 = Return r0 wc" by simp
      from Cons.IH[OF this Cons.prems(2)] True Return show ?thesis by simp
    next
      case False
      with Cons.prems Return show ?thesis by (auto simp: result_at_def)
    qed
  next
    case (Throw e w1)
    with Cons.prems show ?thesis by simp
  next
    case Hang
    with Cons.prems show ?thesis by simp
  qed
qed

lemma run_setup_passed:
  assumes "run_begin h w = Return () wa"
    and "initializePrelude h (stubbedServices opts) [] wa = Return (None, out) wb"
  shows "run h opts w
           = run_finally h
               (spec_pipeline h (performance_now h wa) (spec_stages opts) ([], out) wb)"
  using assms by (simp add: run_def run_try_pipeline and_then_def)

lemma run_stage_failure:
  assumes "run_begin h w = Return () wa"
    and "initializePrelude h (stubbedServices opts) [] wa = Return (None, out) wb"
    and "spec_stages opts = pre @ c # post"
    and "spec_pipeline h (performance_now h wa) pre ([], out) wb = Return r0 wc"
    and "success r0"
    and "executeChunk h c ([], output r0) wc = Return (errs, out') wd"
    and "errs \<noteq> []"
  shows "run h opts w
           = run_finally h
               (Return \<lparr>success = False,
                        durationMs = performance_now h wd - performance_now h wa,
                        errors = errs, output = out'\<rparr> wd)"
proof -
  have "spec_pipeline h (performance_now h wa) (pre @ c # post) ([], out) wb
          = spec_pipeline h (performance_now h wa) (c # post) ([], output r0) wc"
    using assms(4,5) by (rule spec_pipeline_append)
  also have "\<dots> = Return \<lparr>success = False,
                        durationMs = performance_now h wd - performance_now h wa,
                        errors = errs, output = out'\<rparr> wd"
    using assms(6,7) by (simp add: result_at_def)
  finally show ?thesis
    using run_setup_passed[OF assms(1,2)] assms(3) by simp
qed

lemma run_setup_failure:
  assumes "run_begin h w = Return () wa"
    and "initializePrelude h (stubbedServices opts) [] wa = Return (Some d, out) wb"
  shows "run h opts w
           = run_finally h
               (Return \<lparr>success = False,
                        durationMs = performance_now h wb - performance_now h wa,
                        errors = [d], output = out\<rparr> wb)"
  using assms by (simp add: run_def run_try_def and_then_def result_at_def)

lemma run_setup_load_failure:
  assumes "run_begin h w = Return () wa"
    and "src = buildPrelude h (case stubbedServices opts of Some s \<Rightarrow> s
                                | None \<Rightarrow> DEFAULT_STUBBED_SERVICES h)"
    and "luaL_loadbuffer h src (length src) (js ''@roblox-prelude'') wa = Return status wb"
    and "status \<noteq> LUA_OK"
    and "to_jsstring_top h wb = Return msg wc"
  shows "run h opts w
           = run_finally h
               (Return \<lparr>success = False,
                        durationMs = performance_now h wc - performance_now h wa,
                        errors = extractErrors msg (js ''@roblox-prelude''),
                        output = []\<rparr> wc)"
proof -
  from initializePrelude_load_failure[OF assms(2-5), of "[]"] obtain d where
    "extractErrors msg (js ''@roblox-prelude'') = [d]"
    "initializePrelude h (stubbedServices opts) [] wa = Return (Some d, []) wc" by auto
  with run_setup_failure[OF assms(1), of opts d "[]" wc] show ?thesis by simp
qed

lemma run_setup_call_failure:
  assumes "run_begin h w = Return () wa"
    and "src = buildPrelude h (case stubbedServices opts of Some s \<Rightarrow> s
                                | None \<Rightarrow> DEFAULT_STUBBED_SERVICES h)"
    and "luaL_loadbuffer h src (length src) (js ''@roblox-prelude'') wa = Return LUA_OK wb"
    and "lua_pcall h wb = Return (callStatus, calls) wc"
    and "callStatus \<noteq> LUA_OK"
    and "to_jsstring_top h wc = Return msg wd"
  shows "run h opts w
           = run_finally h
               (Return \<lparr>success = False,
                        durationMs = performance_now h wd - performance_now h wa,
                        errors = extractErrors msg (js ''@roblox-prelude''),
                        output = run_calls calls []\<rparr> wd)"
proof -
  from initializePrelude_call_failure[OF assms(2-6), of "[]"] obtain d where
    "extractErrors msg (js ''@roblox-prelude'') = [d]"
    "initializePrelude h (stubbedServices opts) [] wa = Return (Some d, run_calls calls []) wd"
    by auto
  with run_setup_failure[OF assms(1), of opts d "run_calls calls []" wd] show ?thesis by simp
qed





lemma run_target_result:
  assumes "run_begin h w = Return () wa"
    and "initializePrelude h (stubbedServices opts) [] wa = Return (None, out) wb"
    and "spec_stages opts = pre @ [c]"
    and "spec_pipeline h (performance_now h wa) pre ([], out) wb = Return r0 wc"
    and "success r0"
    and "executeChunk h c ([], output r0) wc = Return (errs, out') wd"
  shows "run h opts w
           = run_finally h
               (Return \<lparr>success = (errs = []),
                        durationMs = performance_now h wd - performance_now h wa,
                        errors = errs, output = out'\<rparr> wd)"
proof -
  have "spec_pipeline h (performance_now h wa) (pre @ [c]) ([], out) wb
          = spec_pipeline h (performance_now h wa) [c] ([], output r0) wc"
    using assms(4,5) by (rule spec_pipeline_append)
  also have "\<dots> = Return \<lparr>success = (errs = []),
                        durationMs = performance_now h wd - performance_now h wa,
                        errors = errs, output = out'\<rparr> wd"
    using assms(6) by (simp add: result_at_def)
  finally show ?thesis
    using run_setup_passed[OF assms(1,2)] assms(3) by simp
qed

lemma spec_stages_target: "\<exists>pre. spec_stages opts = pre @ [chunk opts]"
  by (simp add: spec_stages_def)






section \<open>Claims\<close>




text \<open>
  C2. Whenever \<^verbatim>\<open>run\<close> returns a result, \<^verbatim>\<open>success\<close> is true exactly when the list
  \<^verbatim>\<open>errors\<close> holds no diagnostic of severity \<open>Error\<close>, and a result with
  \<^verbatim>\<open>success = false\<close> holds at least one such diagnostic.
\<close>

theorem run_success_iff_no_error:
  assumes "run h opts w = Return r w'"
  shows "(success r \<longleftrightarrow> filter (\<lambda>d. severity d = Error) (errors r) = []) \<and>
         (\<not> success r \<longrightarrow> (\<exists>d \<in> set (errors r). severity d = Error))"
  using run_shape[OF assms] by auto

theorem run_success_iff_no_error_witness:
  "run demo_host (demo_options ''error:lib:1: boom'') demo_start
     = Return demo_failure demo_failure_world \<and>
   (success demo_failure
      \<longleftrightarrow> filter (\<lambda>d. severity d = Error) (errors demo_failure) = []) \<and>
   \<not> success demo_failure \<and>
   (\<exists>d \<in> set (errors demo_failure). severity d = Error)"
  using run_success_iff_no_error[OF demo_run_error] demo_run_error
  by (simp add: demo_failure_def)

text \<open>
  C5. The translator on the two known shapes and on the empty string:
  \<^verbatim>\<open>[string "X"]:12: boom\<close> gives chunk name \<^verbatim>\<open>X\<close>, line 12 and message \<^verbatim>\<open>boom\<close>;
  \<^verbatim>\<open>myfile.luau:3: nil index\<close> gives chunk name \<^verbatim>\<open>myfile.luau\<close>, line 3 and message
  \<^verbatim>\<open>nil index\<close>; the empty string gives exactly one diagnostic, with the fixed
  unknown-error message and the fallback identity. This holds for every fallback identity.
\<close>

theorem extractErrors_known_shapes:
  \<open>extractErrors (js ''[string "X"]:12: boom'') fb
     = [\<lparr>message = js ''boom'', chunkName = js ''X'', line = Some (Finite 12), column = None,
         stack = None, severity = Error\<rparr>] \<and>
   extractErrors (js ''myfile.luau:3: nil index'') fb
     = [\<lparr>message = js ''nil index'', chunkName = js ''myfile.luau'', line = Some (Finite 3),
         column = None, stack = None, severity = Error\<rparr>] \<and>
   extractErrors (js '''') fb
     = [\<lparr>message = js ''Unknown error raised by Roblox simulator runtime.'',
         chunkName = fb, line = None, column = None, stack = None, severity = Error\<rparr>]\<close>
  by (simp add: string_defs)

text \<open>
  C9. Whenever \<^verbatim>\<open>run\<close> returns a result, the list \<^verbatim>\<open>errors\<close> holds at most one
  diagnostic: none when \<^verbatim>\<open>success\<close> is true and exactly one when it is false.
\<close>

theorem run_at_most_one_error:
  assumes "run h opts w = Return r w'"
  shows "length (errors r) \<le> 1 \<and> (success r \<longrightarrow> errors r = []) \<and>
         (\<not> success r \<longrightarrow> length (errors r) = 1)"
  using run_shape[OF assms] by auto

theorem run_at_most_one_error_witness:
  "run demo_host (demo_options ''error:lib:1: boom'') demo_start
     = Return demo_failure demo_failure_world \<and>
   length (errors demo_failure) \<le> 1 \<and> \<not> success demo_failure \<and>
   length (errors demo_failure) = 1"
  using run_at_most_one_error[OF demo_run_error] demo_run_error
  by (simp add: demo_failure_def)

text \<open>
  C6. The translator has no failing path: it returns exactly one diagnostic for every raw
  text and every fallback identity, and the list of lines whose first element it reads
  (\<^verbatim>\<open>lines[0]\<close>) is never empty. When the trimmed text is not empty and its headline
  (its first line) has neither of the two shapes, the diagnostic has the headline as its
  message, the fallback identity as its chunk name, no line, severity \<open>Error\<close>, and as its
  stack the remaining lines joined by line feeds, present exactly when there is a
  remaining line.
\<close>

theorem extractErrors_one_diagnostic_fallback:
  "length (extractErrors raw fb) = 1 \<and>
   split_lines (trim raw) \<noteq> [] \<and>
   (trim raw \<noteq> [] \<and> \<not> quoted_shape (hd (split_lines (trim raw))) \<and>
      \<not> direct_shape (hd (split_lines (trim raw))) \<longrightarrow>
    extractErrors raw fb =
      [\<lparr>message = hd (split_lines (trim raw)), chunkName = fb, line = None, column = None,
        stack = (if tl (split_lines (trim raw)) = [] then None
                 else Some (join [10] (tl (split_lines (trim raw))))),
        severity = Error\<rparr>])"
proof (intro conjI impI)
  show "length (extractErrors raw fb) = 1"
    using extractErrors_single[of raw fb] by auto
next
  show "split_lines (trim raw) \<noteq> []"
    by (simp add: split_lines_def split_from_not_Nil)
next
  assume a: "trim raw \<noteq> [] \<and> \<not> quoted_shape (hd (split_lines (trim raw))) \<and>
      \<not> direct_shape (hd (split_lines (trim raw)))"
  then have n: "pattern_exec (hd (split_lines (trim raw))) = None"
    using pattern_exec_Some_iff by blast
  have "or_undefined (join [10] (tl (split_lines (trim raw)))) =
    (if tl (split_lines (trim raw)) = [] then None
     else Some (join [10] (tl (split_lines (trim raw)))))"
    using a stack_present[of raw] by (simp add: or_undefined_def)
  with a n show "extractErrors raw fb =
      [\<lparr>message = hd (split_lines (trim raw)), chunkName = fb, line = None, column = None,
        stack = (if tl (split_lines (trim raw)) = [] then None
                 else Some (join [10] (tl (split_lines (trim raw))))),
        severity = Error\<rparr>]"
    by (simp add: extractErrors_def Let_def)
qed

theorem extractErrors_one_diagnostic_fallback_witness:
  "length (extractErrors (js ''attempt to call a nil value'' @ [10] @ js ''stack traceback:'')
             (js ''main'')) = 1 \<and>
   extractErrors (js ''attempt to call a nil value'' @ [10] @ js ''stack traceback:'')
     (js ''main'')
   = [\<lparr>message = js ''attempt to call a nil value'', chunkName = js ''main'', line = None,
       column = None, stack = Some (js ''stack traceback:''), severity = Error\<rparr>]"
proof -
  let ?raw = "js ''attempt to call a nil value'' @ [10] @ js ''stack traceback:''"
  have p: "pattern_exec (js ''attempt to call a nil value'') = None"
    by (simp add: string_defs)
  have h: "hd (split_lines (trim ?raw)) = js ''attempt to call a nil value''"
    by (simp add: string_defs)
  have t: "tl (split_lines (trim ?raw)) = [js ''stack traceback:'']"
    by (simp add: string_defs)
  have tr: "trim ?raw \<noteq> []"
    by (simp add: string_defs)
  from p have s: "\<not> quoted_shape (js ''attempt to call a nil value'') \<and>
                  \<not> direct_shape (js ''attempt to call a nil value'')"
    using pattern_exec_Some_iff by blast
  from extractErrors_one_diagnostic_fallback[of ?raw "js ''main''"] h t tr s
  show ?thesis by simp
qed

text \<open>
  C7. The claim reads: every call of the bare logging hook appends exactly one line. The
  hook converts its arguments one after the other (lines 180 to 184), and a conversion can
  raise: \<^verbatim>\<open>luaL_tolstring\<close> for a \<^verbatim>\<open>__tostring\<close> that gives no string,
  \<^verbatim>\<open>to_jsstring\<close> for a string that is no UTF-8, as in \<^verbatim>\<open>print("\xff")\<close>. Then the hook
  is left before line 185: nothing is appended and the hook returns nothing. Here the
  second argument of a call of the bare hook does not convert.
\<close>

theorem logger_raises_without_line:
  "logger [] [Some (js ''a''), None] [js ''before''] = None \<and>
   run_calls [([], [Some (js ''a''), None])] [js ''before''] = [js ''before'']"
  by (simp add: logger_eq)

text \<open>
  C7, as the code has it. A call of a hook appends a line exactly when every argument
  converts to a display string: then one line is appended, the display strings of the
  arguments in order joined by TAB, after no prefix for the bare hook and after
  \<^verbatim>\<open>[warn] \<close> for the warning hook, and the hook returns no value to the script. When
  an argument does not convert, the call appends nothing and does not return. \<^verbatim>\<open>run\<close>
  installs the closure without prefix under the global name \<^verbatim>\<open>print\<close> and the closure
  with the prefix \<^verbatim>\<open>[warn] \<close> under \<^verbatim>\<open>warn\<close>.
\<close>

theorem logger_appends_joined_line:
  "logger prefix args out =
     (if None \<in> set args then None
      else Some (out @ [prefix @ join [9] (map the args)], 0)) \<and>
   run_calls [(prefix, args)] out =
     (if None \<in> set args then out else out @ [prefix @ join [9] (map the args)]) \<and>
   logger [] (map Some vs) out = Some (out @ [join [9] vs], 0) \<and>
   logger (js ''[warn] '') (map Some vs) out = Some (out @ [js ''[warn] '' @ join [9] vs], 0) \<and>
   run_calls [([], map Some vs)] out = out @ [join [9] vs] \<and>
   run_calls [(js ''[warn] '', map Some vs)] out = out @ [js ''[warn] '' @ join [9] vs] \<and>
   run_begin h w =
     and_then (luaL_newstate h w) (\<lambda>_ w1.
     and_then (luaL_openlibs h w1) (\<lambda>_ w2.
     and_then (lua_pushcfunction h [] w2) (\<lambda>_ w3.
     and_then (lua_setglobal h (js ''print'') w3) (\<lambda>_ w4.
     and_then (lua_pushcfunction h (js ''[warn] '') w4) (\<lambda>_ w5.
     lua_setglobal h (js ''warn'') w5)))))"
  using logger_Some[of "[]" vs out] logger_Some[of "js ''[warn] ''" vs out]
        logger_eq[of prefix args out]
  by (simp add: run_begin_def registerLoggingFunction_def and_then_assoc)

text \<open>
  C3. The stages run in the order environment setup, shared bootstrap chunk, preloads in
  the given order, target chunk, and the first stage that produces a diagnostic ends the
  run. In the order of the conjuncts below: \<^verbatim>\<open>run\<close> is the pipeline of the specification,
  \<open>spec_pipeline\<close> on \<open>spec_stages\<close>, placed after the environment setup and inside the
  \<^verbatim>\<open>finally\<close> block; when the interpreter reports a status other than \<^verbatim>\<open>LUA_OK\<close> for the
  environment chunk, at compiling or at calling it, the run returns the failed result with
  the diagnostics of the error text and the output up to there, whatever the chunks of the
  options are, and so it does whenever \<^verbatim>\<open>initializePrelude\<close> returns a diagnostic; when
  the stages before a stage have passed and the step of that stage leaves diagnostics,
  the run returns the failed result with these diagnostics, whatever the later stages are;
  when all the stages before the target chunk have passed, the result of the run is the
  one of the step of the target chunk; the step of a stage appends the diagnostics of the
  error text, which are never none, when the interpreter reports a status other than
  \<^verbatim>\<open>LUA_OK\<close> at compiling or at calling the chunk, and leaves the diagnostics as they are
  otherwise; when the pipeline cut after the bootstrap chunk (the bootstrap chunk in the place
  of the target, no preloads) fails, the whole run returns that very result and ends in
  the same world; and when the pipeline cut after preload \<open>i\<close> (the preloads before \<open>i\<close>,
  preload \<open>i\<close> in the place of the target) fails, the whole run returns that very result
  and ends in the same world.
\<close>

theorem run_short_circuit:
  "run h opts w
     = and_then (run_begin h w)
         (\<lambda>_ wa.
            run_finally h
              (and_then (initializePrelude h (stubbedServices opts) [] wa)
                 (\<lambda>(e, out) wb.
                    case e of
                      Some d \<Rightarrow>
                        Return \<lparr>success = False,
                                durationMs = performance_now h wb - performance_now h wa,
                                errors = [d], output = out\<rparr> wb
                    | None \<Rightarrow>
                        spec_pipeline h (performance_now h wa) (spec_stages opts)
                          ([], out) wb))) \<and>
   (run_begin h w = Return () wa \<and>
    src = buildPrelude h (case stubbedServices opts of Some s \<Rightarrow> s
                          | None \<Rightarrow> DEFAULT_STUBBED_SERVICES h) \<and>
    luaL_loadbuffer h src (length src) (js ''@roblox-prelude'') wa = Return status wb \<and>
    status \<noteq> LUA_OK \<and>
    to_jsstring_top h wb = Return msg wc \<longrightarrow>
      run h opts w
        = run_finally h
            (Return \<lparr>success = False,
                     durationMs = performance_now h wc - performance_now h wa,
                     errors = extractErrors msg (js ''@roblox-prelude''),
                     output = []\<rparr> wc)) \<and>
   (run_begin h w = Return () wa \<and>
    src = buildPrelude h (case stubbedServices opts of Some s \<Rightarrow> s
                          | None \<Rightarrow> DEFAULT_STUBBED_SERVICES h) \<and>
    luaL_loadbuffer h src (length src) (js ''@roblox-prelude'') wa = Return LUA_OK wb \<and>
    lua_pcall h wb = Return (callStatus, calls) wc \<and>
    callStatus \<noteq> LUA_OK \<and>
    to_jsstring_top h wc = Return msg wd \<longrightarrow>
      run h opts w
        = run_finally h
            (Return \<lparr>success = False,
                     durationMs = performance_now h wd - performance_now h wa,
                     errors = extractErrors msg (js ''@roblox-prelude''),
                     output = run_calls calls []\<rparr> wd)) \<and>
   (run_begin h w = Return () wa \<and>
    initializePrelude h (stubbedServices opts) [] wa = Return (Some d, out) wb \<longrightarrow>
      run h opts w
        = run_finally h
            (Return \<lparr>success = False,
                     durationMs = performance_now h wb - performance_now h wa,
                     errors = [d], output = out\<rparr> wb)) \<and>
   (run_begin h w = Return () wa \<and>
    initializePrelude h (stubbedServices opts) [] wa = Return (None, out) wb \<and>
    spec_stages opts = pre @ c # post \<and>
    spec_pipeline h (performance_now h wa) pre ([], out) wb = Return rp wc \<and>
    success rp \<and>
    executeChunk h c ([], output rp) wc = Return (errs, out') wd \<and>
    errs \<noteq> [] \<longrightarrow>
      run h opts w
        = run_finally h
            (Return \<lparr>success = False,
                     durationMs = performance_now h wd - performance_now h wa,
                     errors = errs, output = out'\<rparr> wd)) \<and>
   (run_begin h w = Return () wa \<and>
    initializePrelude h (stubbedServices opts) [] wa = Return (None, out) wb \<and>
    spec_stages opts = pre @ [c] \<and>
    spec_pipeline h (performance_now h wa) pre ([], out) wb = Return rp wc \<and>
    success rp \<and>
    executeChunk h c ([], output rp) wc = Return (errs, out') wd \<longrightarrow>
      c = chunk opts \<and>
      run h opts w
        = run_finally h
            (Return \<lparr>success = (errs = []),
                     durationMs = performance_now h wd - performance_now h wa,
                     errors = errs, output = out'\<rparr> wd)) \<and>
   (luaL_loadbuffer h (code c) (length (code c)) (64 # chunkName c) w = Return status wa \<and>
    status \<noteq> LUA_OK \<and>
    to_jsstring_top h wa = Return msg wb \<and>
    lua_pop h 1 wb = Return () wc \<longrightarrow>
      executeChunk h c (errs, out) w
        = Return (errs @ extractErrors msg (chunkName c), out) wc \<and>
      extractErrors msg (chunkName c) \<noteq> []) \<and>
   (luaL_loadbuffer h (code c) (length (code c)) (64 # chunkName c) w = Return LUA_OK wa \<and>
    lua_pcall h wa = Return (callStatus, calls) wb \<and>
    callStatus \<noteq> LUA_OK \<and>
    to_jsstring_top h wb = Return msg wc \<and>
    lua_pop h 1 wc = Return () wd \<longrightarrow>
      executeChunk h c (errs, out) w
        = Return (errs @ extractErrors msg (chunkName c), run_calls calls out) wd \<and>
      extractErrors msg (chunkName c) \<noteq> []) \<and>
   (luaL_loadbuffer h (code c) (length (code c)) (64 # chunkName c) w = Return LUA_OK wa \<and>
    lua_pcall h wa = Return (LUA_OK, calls) wb \<longrightarrow>
      executeChunk h c (errs, out) w = Return (errs, run_calls calls out) wb) \<and>
   (prelude opts = Some p \<and>
    run h (opts\<lparr>prelude := None, preloads := None, chunk := p\<rparr>) w = Return r w' \<and>
    \<not> success r \<longrightarrow> run h opts w = Return r w') \<and>
   (preloads opts = Some ps \<and> i < length ps \<and>
    run h (opts\<lparr>preloads := Some (take i ps), chunk := ps ! i\<rparr>) w = Return r w' \<and>
    \<not> success r \<longrightarrow> run h opts w = Return r w')"
proof (intro conjI impI, goal_cases)
  case 1
  show ?case unfolding run_def run_try_pipeline result_at_def fst_conv snd_conv
    by (rule refl)
next
  case 2
  then show ?case by (elim conjE) (rule run_setup_load_failure)
next
  case 3
  then show ?case by (elim conjE) (rule run_setup_call_failure)
next
  case 4
  then show ?case by (elim conjE) (rule run_setup_failure)
next
  case 5
  then show ?case by (elim conjE) (rule run_stage_failure)
next
  case 6
  from spec_stages_target[of opts] 6 show ?case by auto
next
  case 7
  then show ?case by (elim conjE) (rule run_target_result)
next
  case 8
  then show ?case by (elim conjE) (rule executeChunk_load_failure)
next
  case 9
  show ?case by (rule extractErrors_not_Nil)
next
  case 10
  then show ?case by (elim conjE) (rule executeChunk_call_failure)
next
  case 11
  show ?case by (rule extractErrors_not_Nil)
next
  case 12
  then show ?case by (elim conjE) (rule executeChunk_success)
next
  case 13
  then show ?case by (auto intro: run_from_try run_try_bootstrap_prefix)
next
  case 14
  then show ?case by (auto intro: run_from_try run_try_preload_prefix)
qed

theorem run_short_circuit_witness:
  "run demo_host
     \<lparr>chunk = demo_chunk ''main'' ''print:main'', prelude = None, preloads = None,
      stubbedServices = Some [js ''syntax:x'']\<rparr> demo_start
   = Return \<lparr>success = False, durationMs = 1,
             errors = [\<lparr>message = js ''x'', chunkName = js ''roblox-prelude'',
                        line = Some (Finite 1), column = None, stack = None,
                        severity = Error\<rparr>],
             output = []\<rparr>
       \<lparr>clock = 8, pending = [], top_value = Some (js ''roblox-prelude:1: x''),
        closed = True\<rparr> \<and>
   run demo_host
     \<lparr>chunk = demo_chunk ''main'' ''print:main'', prelude = None,
      preloads = Some [demo_chunk ''first'' ''print:one'',
                       demo_chunk ''second'' ''error:second:4: stop'',
                       demo_chunk ''third'' ''print:three''],
      stubbedServices = None\<rparr> demo_start
   = Return \<lparr>success = False, durationMs = 33,
             errors = [\<lparr>message = js ''stop'', chunkName = js ''second'',
                        line = Some (Finite 4), column = None, stack = None,
                        severity = Error\<rparr>],
             output = [js ''one'' @ [9] @ js ''done'']\<rparr>
       \<lparr>clock = 40, pending = js ''error:second:4: stop'',
        top_value = Some (js ''second:4: stop''), closed = True\<rparr> \<and>
   run demo_host (demo_options ''print:hello'') demo_start
   = Return \<lparr>success = True, durationMs = 22, errors = [],
             output = [js ''hello'' @ [9] @ js ''done'']\<rparr>
       \<lparr>clock = 29, pending = js ''print:hello'', top_value = None, closed = True\<rparr> \<and>
   run demo_host
     \<lparr>chunk = demo_chunk ''main'' ''print:main'',
      prelude = Some (demo_chunk ''boot'' ''error:boot:3: bad''),
      preloads = Some [demo_chunk ''first'' ''print:one''], stubbedServices = None\<rparr>
     demo_start
   = Return \<lparr>success = False, durationMs = 22,
             errors = [\<lparr>message = js ''bad'', chunkName = js ''boot'', line = Some (Finite 3),
                        column = None, stack = None, severity = Error\<rparr>],
             output = []\<rparr>
       \<lparr>clock = 29, pending = js ''error:boot:3: bad'',
        top_value = Some (js ''boot:3: bad''), closed = True\<rparr> \<and>
   run demo_host
     \<lparr>chunk = demo_chunk ''main'' ''print:main'', prelude = None,
      preloads = Some [demo_chunk ''first'' ''print:one'',
                       demo_chunk ''second'' ''error:second:5: halt'',
                       demo_chunk ''third'' ''print:three''],
      stubbedServices = None\<rparr> demo_start
   = Return \<lparr>success = False, durationMs = 33,
             errors = [\<lparr>message = js ''halt'', chunkName = js ''second'',
                        line = Some (Finite 5), column = None, stack = None,
                        severity = Error\<rparr>],
             output = [js ''one'' @ [9] @ js ''done'']\<rparr>
       \<lparr>clock = 40, pending = js ''error:second:5: halt'',
        top_value = Some (js ''second:5: halt''), closed = True\<rparr>"
proof -
  have b: "run_begin demo_host demo_start = Return () demo_ready"
    by (simp add: demo_defs run_defs demo_ready_def)
  let ?idle = "\<lparr>clock = 18, pending = [], top_value = None, closed = False\<rparr>"
  have s: "initializePrelude demo_host None [] demo_ready = Return (None, []) ?idle"
    by (simp add: demo_defs run_defs string_defs demo_ready_def)

  let ?o1 = "\<lparr>chunk = demo_chunk ''main'' ''print:main'', prelude = None, preloads = None,
               stubbedServices = Some [js ''syntax:x'']\<rparr>"
  let ?m1 = "js ''roblox-prelude:1: x''"
  let ?w1 = "\<lparr>clock = 8, pending = [], top_value = Some ?m1, closed = False\<rparr>"
  note t1 = run_short_circuit
    [where h = demo_host and opts = ?o1 and w = demo_start and wa = demo_ready
       and src = "js ''syntax:x''" and status = 3 and wb = ?w1 and msg = ?m1 and wc = ?w1]
  have h1: "run_begin demo_host demo_start = Return () demo_ready \<and>
    js ''syntax:x'' = buildPrelude demo_host
       (case stubbedServices ?o1 of Some s \<Rightarrow> s
        | None \<Rightarrow> DEFAULT_STUBBED_SERVICES demo_host) \<and>
    luaL_loadbuffer demo_host (js ''syntax:x'') (length (js ''syntax:x''))
       (js ''@roblox-prelude'') demo_ready = Return 3 ?w1 \<and>
    3 \<noteq> LUA_OK \<and>
    to_jsstring_top demo_host ?w1 = Return ?m1 ?w1"
    using b by (simp add: demo_defs demo_ready_def js_def strip_at_def LUA_OK_def)
  have e1: "extractErrors ?m1 (js ''@roblox-prelude'')
              = [\<lparr>message = js ''x'', chunkName = js ''roblox-prelude'',
                  line = Some (Finite 1), column = None, stack = None, severity = Error\<rparr>]"
    by (simp add: string_defs)
  have 1: "run demo_host ?o1 demo_start
   = Return \<lparr>success = False, durationMs = 1,
             errors = [\<lparr>message = js ''x'', chunkName = js ''roblox-prelude'',
                        line = Some (Finite 1), column = None, stack = None,
                        severity = Error\<rparr>],
             output = []\<rparr>
       \<lparr>clock = 8, pending = [], top_value = Some ?m1, closed = True\<rparr>"
    using t1[THEN conjunct2, THEN conjunct1, THEN mp, OF h1]
    by (simp add: e1 run_finally_def and_then_def demo_host_def demo_ready_def)

  let ?first = "demo_chunk ''first'' ''print:one''"
  let ?second = "demo_chunk ''second'' ''error:second:4: stop''"
  let ?third = "demo_chunk ''third'' ''print:three''"
  let ?main = "demo_chunk ''main'' ''print:main''"
  let ?o2 = "\<lparr>chunk = ?main, prelude = None, preloads = Some [?first, ?second, ?third],
               stubbedServices = None\<rparr>"
  let ?rp = "\<lparr>success = True, durationMs = 22, errors = [],
              output = [js ''one'' @ [9] @ js ''done'']\<rparr>"
  let ?wc = "\<lparr>clock = 29, pending = js ''print:one'', top_value = None, closed = False\<rparr>"
  let ?d2 = "\<lparr>message = js ''stop'', chunkName = js ''second'', line = Some (Finite 4),
              column = None, stack = None, severity = Error\<rparr>"
  let ?wd = "\<lparr>clock = 40, pending = js ''error:second:4: stop'',
              top_value = Some (js ''second:4: stop''), closed = False\<rparr>"
  note t2 = run_short_circuit
    [where h = demo_host and opts = ?o2 and w = demo_start and wa = demo_ready
       and out = "[]" and wb = ?idle and pre = "[?first]" and c = ?second
       and post = "[?third, ?main]" and rp = ?rp and wc = ?wc and errs = "[?d2]"
       and out' = "[js ''one'' @ [9] @ js ''done'']" and wd = ?wd]
  have p2: "spec_pipeline demo_host (performance_now demo_host demo_ready) [?first] ([], [])
              ?idle = Return ?rp ?wc"
    by (simp add: demo_defs run_defs string_defs demo_ready_def)
  have x2: "executeChunk demo_host ?second ([], output ?rp) ?wc
              = Return ([?d2], [js ''one'' @ [9] @ js ''done'']) ?wd"
    by (simp add: demo_defs run_defs string_defs)
  have h2: "run_begin demo_host demo_start = Return () demo_ready \<and>
    initializePrelude demo_host (stubbedServices ?o2) [] demo_ready = Return (None, []) ?idle \<and>
    spec_stages ?o2 = [?first] @ ?second # [?third, ?main] \<and>
    spec_pipeline demo_host (performance_now demo_host demo_ready) [?first] ([], [])
      ?idle = Return ?rp ?wc \<and>
    success ?rp \<and>
    executeChunk demo_host ?second ([], output ?rp) ?wc
      = Return ([?d2], [js ''one'' @ [9] @ js ''done'']) ?wd \<and>
    [?d2] \<noteq> []"
    using b s p2 x2 by (simp add: spec_stages_def)
  have 2: "run demo_host ?o2 demo_start
   = Return \<lparr>success = False, durationMs = 33, errors = [?d2],
             output = [js ''one'' @ [9] @ js ''done'']\<rparr>
       \<lparr>clock = 40, pending = js ''error:second:4: stop'',
        top_value = Some (js ''second:4: stop''), closed = True\<rparr>"
    using t2[THEN conjunct2, THEN conjunct2, THEN conjunct2, THEN conjunct2, THEN conjunct1,
             THEN mp, OF h2]
    by (simp add: run_finally_def and_then_def demo_host_def demo_ready_def)

  let ?o3 = "demo_options ''print:hello''"
  let ?hello = "demo_chunk ''main'' ''print:hello''"
  let ?rq = "\<lparr>success = True, durationMs = 11, errors = [], output = []\<rparr>"
  note t3 = run_short_circuit
    [where h = demo_host and opts = ?o3 and w = demo_start and wa = demo_ready
       and out = "[]" and wb = ?idle and pre = "[]" and c = ?hello
       and rp = ?rq and wc = ?idle and errs = "[]"
       and out' = "[js ''hello'' @ [9] @ js ''done'']" and wd = demo_printed_world]
  have p3: "spec_pipeline demo_host (performance_now demo_host demo_ready) [] ([], [])
              ?idle = Return ?rq ?idle"
    by (simp add: demo_defs run_defs demo_ready_def)
  have x3: "executeChunk demo_host ?hello ([], output ?rq) ?idle
              = Return ([], [js ''hello'' @ [9] @ js ''done'']) demo_printed_world"
    by (simp add: demo_defs run_defs string_defs demo_printed_world_def)
  have h3: "run_begin demo_host demo_start = Return () demo_ready \<and>
    initializePrelude demo_host (stubbedServices ?o3) [] demo_ready = Return (None, []) ?idle \<and>
    spec_stages ?o3 = [] @ [?hello] \<and>
    spec_pipeline demo_host (performance_now demo_host demo_ready) [] ([], [])
      ?idle = Return ?rq ?idle \<and>
    success ?rq \<and>
    executeChunk demo_host ?hello ([], output ?rq) ?idle
      = Return ([], [js ''hello'' @ [9] @ js ''done'']) demo_printed_world"
    using b s p3 x3 by (simp add: spec_stages_def demo_options_def)
  have 3: "run demo_host ?o3 demo_start
   = Return \<lparr>success = True, durationMs = 22, errors = [],
             output = [js ''hello'' @ [9] @ js ''done'']\<rparr>
       \<lparr>clock = 29, pending = js ''print:hello'', top_value = None, closed = True\<rparr>"
    using t3[THEN conjunct2, THEN conjunct2, THEN conjunct2, THEN conjunct2, THEN conjunct2,
             THEN conjunct1, THEN mp, OF h3]
    by (simp add: run_finally_def and_then_def demo_host_def demo_ready_def
                  demo_printed_world_def)

  let ?p = "demo_chunk ''boot'' ''error:boot:3: bad''"
  let ?o4 = "\<lparr>chunk = ?main, prelude = Some ?p, preloads = Some [?first],
               stubbedServices = None\<rparr>"
  let ?r4 = "\<lparr>success = False, durationMs = 22,
             errors = [\<lparr>message = js ''bad'', chunkName = js ''boot'', line = Some (Finite 3),
                        column = None, stack = None, severity = Error\<rparr>],
             output = []\<rparr>"
  let ?w4 = "\<lparr>clock = 29, pending = js ''error:boot:3: bad'',
             top_value = Some (js ''boot:3: bad''), closed = True\<rparr>"
  note t4 = run_short_circuit
    [where h = demo_host and opts = ?o4 and w = demo_start and p = ?p and r = ?r4
       and w' = ?w4]
  have h4: "prelude ?o4 = Some ?p \<and>
    run demo_host (?o4\<lparr>prelude := None, preloads := None, chunk := ?p\<rparr>) demo_start
      = Return ?r4 ?w4 \<and> \<not> success ?r4"
    by (simp add: demo_defs run_defs string_defs)
  have 4: "run demo_host ?o4 demo_start = Return ?r4 ?w4"
    using t4[THEN conjunct2, THEN conjunct2, THEN conjunct2, THEN conjunct2, THEN conjunct2,
             THEN conjunct2, THEN conjunct2, THEN conjunct2, THEN conjunct2, THEN conjunct1,
             THEN mp, OF h4] .

  let ?ps = "[?first, demo_chunk ''second'' ''error:second:5: halt'', ?third]"
  let ?o5 = "\<lparr>chunk = ?main, prelude = None, preloads = Some ?ps, stubbedServices = None\<rparr>"
  let ?r5 = "\<lparr>success = False, durationMs = 33,
             errors = [\<lparr>message = js ''halt'', chunkName = js ''second'',
                        line = Some (Finite 5), column = None, stack = None,
                        severity = Error\<rparr>],
             output = [js ''one'' @ [9] @ js ''done'']\<rparr>"
  let ?w5 = "\<lparr>clock = 40, pending = js ''error:second:5: halt'',
             top_value = Some (js ''second:5: halt''), closed = True\<rparr>"
  note t5 = run_short_circuit
    [where h = demo_host and opts = ?o5 and w = demo_start and ps = ?ps and i = 1
       and r = ?r5 and w' = ?w5]
  have h5: "preloads ?o5 = Some ?ps \<and> 1 < length ?ps \<and>
    run demo_host (?o5\<lparr>preloads := Some (take 1 ?ps), chunk := ?ps ! 1\<rparr>) demo_start
      = Return ?r5 ?w5 \<and> \<not> success ?r5"
    by (simp add: demo_defs run_defs string_defs)
  have 5: "run demo_host ?o5 demo_start = Return ?r5 ?w5"
    using t5[THEN conjunct2, THEN conjunct2, THEN conjunct2, THEN conjunct2, THEN conjunct2,
             THEN conjunct2, THEN conjunct2, THEN conjunct2, THEN conjunct2, THEN conjunct2,
             THEN mp, OF h5] .
  from 1 2 3 4 5 show ?thesis by (intro conjI)
qed

text \<open>
  C4. The claim reads: \<^verbatim>\<open>durationMs\<close> is the time from immediately before the
  interpreter is created to immediately before \<^verbatim>\<open>run\<close> returns. \<^verbatim>\<open>runStart\<close> is read
  in line 88, after the interpreter is created, the libraries are opened and the hooks
  are installed. In the run below these steps take 7 units of time: the clock goes from 0
  to 29 (closing the interpreter takes no time here), and \<^verbatim>\<open>durationMs\<close> is 22.
\<close>

theorem run_duration_excludes_creation:
  "run demo_host (demo_options ''print:hello'') demo_start
     = Return demo_printed (demo_printed_world\<lparr>closed := True\<rparr>) \<and>
   durationMs demo_printed = 22 \<and>
   performance_now demo_host (demo_printed_world\<lparr>closed := True\<rparr>)
     - performance_now demo_host demo_start = 29"
  by (simp add: demo_defs run_defs string_defs demo_printed_def demo_printed_world_def)

text \<open>
  C4, as the code has it: \<^verbatim>\<open>durationMs\<close> is the clock where the returned object is
  built (after the last stage that ran, before the interpreter is closed) minus the clock
  read once the interpreter is created and the hooks are installed (\<open>w1\<close>, the world that
  \<open>run_begin\<close> leaves).
\<close>

theorem run_duration:
  assumes "run_begin h w = Return () w1"
    and "run_try h opts (performance_now h w1) w1 = Return r w2"
  shows "durationMs r = performance_now h w2 - performance_now h w1 \<and>
         run h opts w = run_finally h (Return r w2)"
  using assms run_try_duration[OF assms(2)] by (simp add: run_def and_then_def)

theorem run_duration_witness:
  "run_begin demo_host demo_start = Return () demo_ready \<and>
   run_try demo_host (demo_options ''print:hello'') (performance_now demo_host demo_ready)
     demo_ready = Return demo_printed demo_printed_world \<and>
   durationMs demo_printed
     = performance_now demo_host demo_printed_world - performance_now demo_host demo_ready \<and>
   run demo_host (demo_options ''print:hello'') demo_start
     = run_finally demo_host (Return demo_printed demo_printed_world)"
proof -
  have b: "run_begin demo_host demo_start = Return () demo_ready"
    by (simp add: demo_defs run_defs demo_ready_def)
  have t: "run_try demo_host (demo_options ''print:hello'')
             (performance_now demo_host demo_ready) demo_ready
           = Return demo_printed demo_printed_world"
    by (simp add: demo_defs run_defs string_defs demo_ready_def demo_printed_def
                  demo_printed_world_def)
  from run_duration[OF b t] b t show ?thesis by simp
qed




text \<open>
  C10. The claim reads: a setup failure whose headline matches a shape yields the chunk name
  \<^verbatim>\<open>roblox-prelude\<close>. In the branch of a match the chunk name is the identity that the
  headline names, and the fallback identity is not used. Here the setup chunk fails with
  the error text \<^verbatim>\<open>lib:1: boom\<close>, which has the second shape, and the diagnostic names
  \<^verbatim>\<open>lib\<close>.
\<close>

theorem setup_failure_names_other_identity:
  "initializePrelude demo_host (Some [js ''error:lib:1: boom'']) [] demo_ready
     = Return (Some \<lparr>message = js ''boom'', chunkName = js ''lib'', line = Some (Finite 1),
                     column = None, stack = None, severity = Error\<rparr>, [])
         \<lparr>clock = 18, pending = js ''error:lib:1: boom'',
          top_value = Some (js ''lib:1: boom''), closed = False\<rparr> \<and>
   direct_shape (js ''lib:1: boom'') \<and> js ''lib'' \<noteq> js ''roblox-prelude''"
proof -
  have "direct_shape (js ''lib:1: boom'')"
    unfolding direct_shape_def
    by (rule exI[of _ "js ''lib''"], rule exI[of _ "js ''1''"], rule exI[of _ "js '' boom''"])
       (simp add: js_def is_digit_def)
  then show ?thesis
    by (simp add: demo_defs run_defs string_defs demo_ready_def)
qed

text \<open>
  C10, as the code has it. When the interpreter reports that the setup chunk fails to
  compile or to run, \<^verbatim>\<open>initializePrelude\<close> returns the translation of the interpreter's
  error text with the fallback identity \<^verbatim>\<open>@roblox-prelude\<close>, sigil included. When that
  text is blank or its headline has neither shape, the diagnostic's chunk name is exactly
  \<^verbatim>\<open>@roblox-prelude\<close>: the fallback is used as it is. When the headline has a shape, the
  chunk name is the identity that the headline names, with one leading \<^verbatim>\<open>@\<close> removed,
  and the fallback is not used: \<^verbatim>\<open>roblox-prelude\<close> for the headlines that name the setup
  chunk (\<^verbatim>\<open>@roblox-prelude\<close> or \<^verbatim>\<open>roblox-prelude\<close> before the line number, or
  \<^verbatim>\<open>[string "@roblox-prelude"]\<close>), and another name for a headline that names another
  identity.
\<close>

theorem prelude_fallback_keeps_sigil:
  \<open>(src = buildPrelude h (case services of Some s \<Rightarrow> s | None \<Rightarrow> DEFAULT_STUBBED_SERVICES h) \<and>
    luaL_loadbuffer h src (length src) (js ''@roblox-prelude'') w = Return status wa \<and>
    status \<noteq> LUA_OK \<and> to_jsstring_top h wa = Return msg wb \<longrightarrow>
      (\<exists>d. extractErrors msg (js ''@roblox-prelude'') = [d] \<and>
           initializePrelude h services out w = Return (Some d, out) wb)) \<and>
   (src = buildPrelude h (case services of Some s \<Rightarrow> s | None \<Rightarrow> DEFAULT_STUBBED_SERVICES h) \<and>
    luaL_loadbuffer h src (length src) (js ''@roblox-prelude'') w = Return LUA_OK wa \<and>
    lua_pcall h wa = Return (callStatus, calls) wb \<and> callStatus \<noteq> LUA_OK \<and>
    to_jsstring_top h wb = Return msg wc \<longrightarrow>
      (\<exists>d. extractErrors msg (js ''@roblox-prelude'') = [d] \<and>
           initializePrelude h services out w = Return (Some d, run_calls calls out) wc)) \<and>
   (trim raw = [] \<or>
      (\<not> quoted_shape (hd (split_lines (trim raw))) \<and>
       \<not> direct_shape (hd (split_lines (trim raw)))) \<longrightarrow>
      map SimulationError.chunkName (extractErrors raw (js ''@roblox-prelude''))
        = [js ''@roblox-prelude'']) \<and>
   (trim raw \<noteq> [] \<and>
    hd (split_lines (trim raw))
      = js ''[string '' @ [34] @ ident @ [34, 93, 58] @ ds @ [58] @ rest \<and>
    ident \<noteq> [] \<and> 34 \<notin> set ident \<and> ds \<noteq> [] \<and> (\<forall>x \<in> set ds. is_digit x) \<longrightarrow>
      map SimulationError.chunkName (extractErrors raw (js ''@roblox-prelude''))
        = [strip_at ident]) \<and>
   (trim raw \<noteq> [] \<and> \<not> quoted_shape (hd (split_lines (trim raw))) \<and>
    hd (split_lines (trim raw)) = ident @ [58] @ ds @ [58] @ rest \<and>
    ident \<noteq> [] \<and> 58 \<notin> set ident \<and> ds \<noteq> [] \<and> (\<forall>x \<in> set ds. is_digit x) \<longrightarrow>
      map SimulationError.chunkName (extractErrors raw (js ''@roblox-prelude''))
        = [strip_at ident]) \<and>
   (ds \<noteq> [] \<and> (\<forall>x \<in> set ds. is_digit x) \<longrightarrow>
      map SimulationError.chunkName
        (extractErrors (js ''@roblox-prelude:'' @ ds @ [58] @ rest) (js ''@roblox-prelude''))
        = [js ''roblox-prelude''] \<and>
      map SimulationError.chunkName
        (extractErrors (js ''roblox-prelude:'' @ ds @ [58] @ rest) (js ''@roblox-prelude''))
        = [js ''roblox-prelude''] \<and>
      map SimulationError.chunkName
        (extractErrors (js ''[string "@roblox-prelude"]:'' @ ds @ [58] @ rest)
           (js ''@roblox-prelude''))
        = [js ''roblox-prelude''])\<close>
proof (intro conjI impI)
  assume "src = buildPrelude h (case services of Some s \<Rightarrow> s | None \<Rightarrow> DEFAULT_STUBBED_SERVICES h) \<and>
    luaL_loadbuffer h src (length src) (js ''@roblox-prelude'') w = Return status wa \<and>
    status \<noteq> LUA_OK \<and> to_jsstring_top h wa = Return msg wb"
  then show "\<exists>d. extractErrors msg (js ''@roblox-prelude'') = [d] \<and>
           initializePrelude h services out w = Return (Some d, out) wb"
    using initializePrelude_load_failure[of src h services w status wa msg wb out] by blast
next
  assume "src = buildPrelude h (case services of Some s \<Rightarrow> s | None \<Rightarrow> DEFAULT_STUBBED_SERVICES h) \<and>
    luaL_loadbuffer h src (length src) (js ''@roblox-prelude'') w = Return LUA_OK wa \<and>
    lua_pcall h wa = Return (callStatus, calls) wb \<and> callStatus \<noteq> LUA_OK \<and>
    to_jsstring_top h wb = Return msg wc"
  then show "\<exists>d. extractErrors msg (js ''@roblox-prelude'') = [d] \<and>
           initializePrelude h services out w = Return (Some d, run_calls calls out) wc"
    using initializePrelude_call_failure
            [of src h services w wa callStatus calls wb msg wc out] by blast
next
  assume "trim raw = [] \<or>
      (\<not> quoted_shape (hd (split_lines (trim raw))) \<and>
       \<not> direct_shape (hd (split_lines (trim raw))))"
  from extractErrors_fallback_identity[OF this, of "js ''@roblox-prelude''"]
  show "map SimulationError.chunkName (extractErrors raw (js ''@roblox-prelude''))
        = [js ''@roblox-prelude'']" by auto
next
  assume "trim raw \<noteq> [] \<and>
    hd (split_lines (trim raw))
      = js ''[string '' @ [34] @ ident @ [34, 93, 58] @ ds @ [58] @ rest \<and>
    ident \<noteq> [] \<and> 34 \<notin> set ident \<and> ds \<noteq> [] \<and> (\<forall>x \<in> set ds. is_digit x)"
  then show "map SimulationError.chunkName (extractErrors raw (js ''@roblox-prelude''))
        = [strip_at ident]"
    using extractErrors_quoted_headline[of raw ident ds rest] by blast
next
  assume "trim raw \<noteq> [] \<and> \<not> quoted_shape (hd (split_lines (trim raw))) \<and>
    hd (split_lines (trim raw)) = ident @ [58] @ ds @ [58] @ rest \<and>
    ident \<noteq> [] \<and> 58 \<notin> set ident \<and> ds \<noteq> [] \<and> (\<forall>x \<in> set ds. is_digit x)"
  then show "map SimulationError.chunkName (extractErrors raw (js ''@roblox-prelude''))
        = [strip_at ident]"
    using extractErrors_direct_headline[of raw ident ds rest] by blast
next
  assume a: "ds \<noteq> [] \<and> (\<forall>x \<in> set ds. is_digit x)"
  have e: "js ''@roblox-prelude:'' @ ds @ [58] @ rest
             = js ''@roblox-prelude'' @ [58] @ ds @ [58] @ rest"
    by (simp add: js_def)
  have "\<exists>m s. extractErrors (js ''@roblox-prelude'' @ [58] @ ds @ [58] @ rest)
                 (js ''@roblox-prelude'')
          = [\<lparr>message = m, chunkName = strip_at (js ''@roblox-prelude''),
              line = Some (js_number False (digit_value ds)), column = None, stack = s,
              severity = Error\<rparr>]"
    using a by (intro extractErrors_direct_identity) (simp_all add: js_def is_space_def)
  then show "map SimulationError.chunkName
        (extractErrors (js ''@roblox-prelude:'' @ ds @ [58] @ rest) (js ''@roblox-prelude''))
        = [js ''roblox-prelude'']"
    unfolding e by (auto simp: strip_at_def js_def)
next
  assume a: "ds \<noteq> [] \<and> (\<forall>x \<in> set ds. is_digit x)"
  have e: "js ''roblox-prelude:'' @ ds @ [58] @ rest
             = js ''roblox-prelude'' @ [58] @ ds @ [58] @ rest"
    by (simp add: js_def)
  have "\<exists>m s. extractErrors (js ''roblox-prelude'' @ [58] @ ds @ [58] @ rest)
                 (js ''@roblox-prelude'')
          = [\<lparr>message = m, chunkName = strip_at (js ''roblox-prelude''),
              line = Some (js_number False (digit_value ds)), column = None, stack = s,
              severity = Error\<rparr>]"
    using a by (intro extractErrors_direct_identity) (simp_all add: js_def is_space_def)
  then show "map SimulationError.chunkName
        (extractErrors (js ''roblox-prelude:'' @ ds @ [58] @ rest) (js ''@roblox-prelude''))
        = [js ''roblox-prelude'']"
    unfolding e by (auto simp: strip_at_def js_def)
next
  assume a: "ds \<noteq> [] \<and> (\<forall>x \<in> set ds. is_digit x)"
  have e: \<open>js ''[string "@roblox-prelude"]:'' @ ds @ [58] @ rest
             = js ''[string '' @ [34] @ js ''@roblox-prelude'' @ [34, 93, 58] @ ds @ [58] @ rest\<close>
    by (simp add: js_def)
  have "\<exists>m s. extractErrors
                 (js ''[string '' @ [34] @ js ''@roblox-prelude'' @ [34, 93, 58] @ ds @ [58] @ rest)
                 (js ''@roblox-prelude'')
          = [\<lparr>message = m, chunkName = strip_at (js ''@roblox-prelude''),
              line = Some (js_number False (digit_value ds)), column = None, stack = s,
              severity = Error\<rparr>]"
    using a by (intro extractErrors_quoted_identity) (simp_all add: js_def)
  then show \<open>map SimulationError.chunkName
        (extractErrors (js ''[string "@roblox-prelude"]:'' @ ds @ [58] @ rest)
           (js ''@roblox-prelude''))
        = [js ''roblox-prelude'']\<close>
    unfolding e by (auto simp: strip_at_def js_def)
qed

theorem prelude_fallback_keeps_sigil_witness:
  \<open>(\<exists>d. extractErrors (js ''attempt to call a nil value'') (js ''@roblox-prelude'') = [d] \<and>
        initializePrelude demo_host (Some [js ''error:attempt to call a nil value'']) []
          demo_ready
          = Return (Some d, [])
              \<lparr>clock = 18, pending = js ''error:attempt to call a nil value'',
               top_value = Some (js ''attempt to call a nil value''), closed = False\<rparr>) \<and>
   (\<exists>d. extractErrors (js ''roblox-prelude:1: unexpected symbol'') (js ''@roblox-prelude'')
          = [d] \<and>
        initializePrelude demo_host (Some [js ''syntax:unexpected symbol'']) [] demo_ready
          = Return (Some d, [])
              \<lparr>clock = 8, pending = [],
               top_value = Some (js ''roblox-prelude:1: unexpected symbol''),
               closed = False\<rparr>) \<and>
   map SimulationError.chunkName
     (extractErrors (js ''attempt to call a nil value'') (js ''@roblox-prelude''))
     = [js ''@roblox-prelude''] \<and>
   map SimulationError.chunkName
     (extractErrors (js ''lib:1: boom'') (js ''@roblox-prelude'')) = [js ''lib''] \<and>
   map SimulationError.chunkName
     (extractErrors (js ''[string "@lib"]:1: boom'') (js ''@roblox-prelude'')) = [js ''lib''] \<and>
   map SimulationError.chunkName
     (extractErrors (js ''@roblox-prelude:3: oops'') (js ''@roblox-prelude''))
     = [js ''roblox-prelude''] \<and>
   map SimulationError.chunkName
     (extractErrors (js ''roblox-prelude:3: oops'') (js ''@roblox-prelude''))
     = [js ''roblox-prelude''] \<and>
   map SimulationError.chunkName
     (extractErrors (js ''[string "@roblox-prelude"]:3: oops'') (js ''@roblox-prelude''))
     = [js ''roblox-prelude'']\<close>
proof -
  let ?fb = "js ''@roblox-prelude''"
  let ?nil = "js ''attempt to call a nil value''"
  let ?w1 = "\<lparr>clock = 8, pending = js ''error:attempt to call a nil value'',
              top_value = None, closed = False\<rparr>"
  let ?w2 = "\<lparr>clock = 18, pending = js ''error:attempt to call a nil value'',
              top_value = Some ?nil, closed = False\<rparr>"
  let ?v1 = "\<lparr>clock = 8, pending = [],
              top_value = Some (js ''roblox-prelude:1: unexpected symbol''),
              closed = False\<rparr>"
  have c: "js ''error:attempt to call a nil value''
             = buildPrelude demo_host
                 (case Some [js ''error:attempt to call a nil value''] of
                    Some s \<Rightarrow> s | None \<Rightarrow> DEFAULT_STUBBED_SERVICES demo_host)"
    "luaL_loadbuffer demo_host (js ''error:attempt to call a nil value'')
       (length (js ''error:attempt to call a nil value'')) ?fb demo_ready
       = Return LUA_OK ?w1"
    "lua_pcall demo_host ?w1 = Return (2, []) ?w2"
    "(2::nat) \<noteq> LUA_OK"
    "to_jsstring_top demo_host ?w2 = Return ?nil ?w2"
    by (simp_all add: demo_defs demo_ready_def js_def LUA_OK_def)
  have l: "js ''syntax:unexpected symbol''
             = buildPrelude demo_host
                 (case Some [js ''syntax:unexpected symbol''] of
                    Some s \<Rightarrow> s | None \<Rightarrow> DEFAULT_STUBBED_SERVICES demo_host)"
    "luaL_loadbuffer demo_host (js ''syntax:unexpected symbol'')
       (length (js ''syntax:unexpected symbol'')) ?fb demo_ready = Return 3 ?v1"
    "(3::nat) \<noteq> LUA_OK"
    "to_jsstring_top demo_host ?v1 = Return (js ''roblox-prelude:1: unexpected symbol'') ?v1"
    by (simp_all add: demo_defs demo_ready_def js_def LUA_OK_def strip_at_def)
  have p: "pattern_exec ?nil = None"
    by (simp add: string_defs)
  have h: "hd (split_lines (trim ?nil)) = ?nil"
    by (simp add: string_defs)
  from p have s: "\<not> quoted_shape ?nil \<and> \<not> direct_shape ?nil"
    using pattern_exec_Some_iff by blast
  have q: "\<not> quoted_shape (js ''lib'' @ [58] @ js ''1'' @ [58] @ js '' boom'')"
    by (auto simp: quoted_shape_def js_def)
  have hl: "trim (js ''lib:1: boom'') \<noteq> []"
    "hd (split_lines (trim (js ''lib:1: boom'')))
       = js ''lib'' @ [58] @ js ''1'' @ [58] @ js '' boom''"
    \<open>trim (js ''[string "@lib"]:1: boom'') \<noteq> []\<close>
    \<open>hd (split_lines (trim (js ''[string "@lib"]:1: boom'')))
       = js ''[string '' @ [34] @ js ''@lib'' @ [34, 93, 58] @ js ''1'' @ [58] @ js '' boom''\<close>
    by (simp_all add: string_defs)
  have g: "js ''3'' \<noteq> []" "\<forall>x \<in> set (js ''3''). is_digit x"
    "js ''1'' \<noteq> []" "\<forall>x \<in> set (js ''1''). is_digit x"
    "js ''lib'' \<noteq> []" "58 \<notin> set (js ''lib'')"
    "js ''@lib'' \<noteq> []" "34 \<notin> set (js ''@lib'')"
    "strip_at (js ''lib'') = js ''lib''" "strip_at (js ''@lib'') = js ''lib''"
    by (simp_all add: js_def is_digit_def strip_at_def)
  have r: \<open>js ''@roblox-prelude:3: oops'' = js ''@roblox-prelude:'' @ js ''3'' @ [58] @ js '' oops''\<close>
    \<open>js ''roblox-prelude:3: oops'' = js ''roblox-prelude:'' @ js ''3'' @ [58] @ js '' oops''\<close>
    \<open>js ''[string "@roblox-prelude"]:3: oops''
       = js ''[string "@roblox-prelude"]:'' @ js ''3'' @ [58] @ js '' oops''\<close>
    by (simp_all add: js_def)
  note t1 = prelude_fallback_keeps_sigil
         [where h = demo_host and services = "Some [js ''error:attempt to call a nil value'']"
            and src = "js ''error:attempt to call a nil value''" and out = "[]"
            and w = demo_ready and wa = "?w1" and callStatus = 2 and calls = "[]" and wb = "?w2"
            and msg = "?nil" and wc = "?w2" and status = 3
            and raw = "?nil" and ds = "js ''3''" and rest = "js '' oops''" and ident = "js ''lib''"]
  note t2 = prelude_fallback_keeps_sigil
         [where h = demo_host and services = "Some [js ''syntax:unexpected symbol'']"
            and src = "js ''syntax:unexpected symbol''" and out = "[]"
            and w = demo_ready and wa = "?v1" and status = 3 and wb = "?v1"
            and msg = "js ''roblox-prelude:1: unexpected symbol''"
            and callStatus = 2 and calls = "[]" and wc = "?v1"
            and raw = "js ''lib:1: boom''" and ident = "js ''lib''" and ds = "js ''1''"
            and rest = "js '' boom''"]
  note t3 = prelude_fallback_keeps_sigil
         [where h = demo_host and services = "Some [js ''syntax:unexpected symbol'']"
            and src = "js ''syntax:unexpected symbol''" and out = "[]"
            and w = demo_ready and wa = "?v1" and status = 3 and wb = "?v1"
            and msg = "js ''roblox-prelude:1: unexpected symbol''"
            and callStatus = 2 and calls = "[]" and wc = "?v1"
            and raw = \<open>js ''[string "@lib"]:1: boom''\<close> and ident = "js ''@lib''"
            and ds = "js ''1''" and rest = "js '' boom''"]
  have h1: "js ''error:attempt to call a nil value''
        = buildPrelude demo_host
            (case Some [js ''error:attempt to call a nil value''] of
               Some s \<Rightarrow> s | None \<Rightarrow> DEFAULT_STUBBED_SERVICES demo_host) \<and>
      luaL_loadbuffer demo_host (js ''error:attempt to call a nil value'')
        (length (js ''error:attempt to call a nil value'')) ?fb demo_ready
        = Return LUA_OK ?w1 \<and>
      lua_pcall demo_host ?w1 = Return (2, []) ?w2 \<and> (2::nat) \<noteq> LUA_OK \<and>
      to_jsstring_top demo_host ?w2 = Return ?nil ?w2"
    using c by blast
  have h2: "js ''syntax:unexpected symbol''
        = buildPrelude demo_host
            (case Some [js ''syntax:unexpected symbol''] of
               Some s \<Rightarrow> s | None \<Rightarrow> DEFAULT_STUBBED_SERVICES demo_host) \<and>
      luaL_loadbuffer demo_host (js ''syntax:unexpected symbol'')
        (length (js ''syntax:unexpected symbol'')) ?fb demo_ready = Return 3 ?v1 \<and>
      (3::nat) \<noteq> LUA_OK \<and>
      to_jsstring_top demo_host ?v1 = Return (js ''roblox-prelude:1: unexpected symbol'') ?v1"
    using l by blast
  have h3: "trim ?nil = [] \<or>
      (\<not> quoted_shape (hd (split_lines (trim ?nil))) \<and>
       \<not> direct_shape (hd (split_lines (trim ?nil))))"
    using h s by simp
  from t1[THEN conjunct2, THEN conjunct1, THEN mp, OF h1]
  have 1: "\<exists>d. extractErrors ?nil ?fb = [d] \<and>
        initializePrelude demo_host (Some [js ''error:attempt to call a nil value'']) []
          demo_ready = Return (Some d, []) ?w2"
    by simp
  from t2[THEN conjunct1, THEN mp, OF h2]
  have 2: "\<exists>d. extractErrors (js ''roblox-prelude:1: unexpected symbol'') ?fb = [d] \<and>
        initializePrelude demo_host (Some [js ''syntax:unexpected symbol'']) [] demo_ready
          = Return (Some d, []) ?v1" .
  from t1[THEN conjunct2, THEN conjunct2, THEN conjunct1, THEN mp, OF h3]
  have 3: "map SimulationError.chunkName (extractErrors ?nil ?fb) = [?fb]" .
  have h4: "trim (js ''lib:1: boom'') \<noteq> [] \<and>
      \<not> quoted_shape (hd (split_lines (trim (js ''lib:1: boom'')))) \<and>
      hd (split_lines (trim (js ''lib:1: boom'')))
        = js ''lib'' @ [58] @ js ''1'' @ [58] @ js '' boom'' \<and>
      js ''lib'' \<noteq> [] \<and> 58 \<notin> set (js ''lib'') \<and> js ''1'' \<noteq> [] \<and>
      (\<forall>x \<in> set (js ''1''). is_digit x)"
    using q hl g by simp
  have h5: \<open>trim (js ''[string "@lib"]:1: boom'') \<noteq> [] \<and>
      hd (split_lines (trim (js ''[string "@lib"]:1: boom'')))
        = js ''[string '' @ [34] @ js ''@lib'' @ [34, 93, 58] @ js ''1'' @ [58] @ js '' boom'' \<and>
      js ''@lib'' \<noteq> [] \<and> 34 \<notin> set (js ''@lib'') \<and> js ''1'' \<noteq> [] \<and>
      (\<forall>x \<in> set (js ''1''). is_digit x)\<close>
    using hl g by simp
  from t2[THEN conjunct2, THEN conjunct2, THEN conjunct2, THEN conjunct2, THEN conjunct1,
          THEN mp, OF h4] g
  have 4: "map SimulationError.chunkName
      (extractErrors (js ''lib:1: boom'') ?fb) = [js ''lib'']"
    by simp
  from t3[THEN conjunct2, THEN conjunct2, THEN conjunct2, THEN conjunct1, THEN mp, OF h5] g
  have 5: \<open>map SimulationError.chunkName
      (extractErrors (js ''[string "@lib"]:1: boom'') ?fb) = [js ''lib'']\<close>
    by simp
  have h6: "js ''3'' \<noteq> [] \<and> (\<forall>x \<in> set (js ''3''). is_digit x)"
    using g by simp
  note t6 = t1[THEN conjunct2, THEN conjunct2, THEN conjunct2, THEN conjunct2, THEN conjunct2,
               THEN mp, OF h6]
  from t6[THEN conjunct1] have 6: "map SimulationError.chunkName
      (extractErrors (js ''@roblox-prelude:3: oops'') ?fb) = [js ''roblox-prelude'']"
    unfolding r .
  from t6[THEN conjunct2, THEN conjunct1] have 7: "map SimulationError.chunkName
      (extractErrors (js ''roblox-prelude:3: oops'') ?fb) = [js ''roblox-prelude'']"
    unfolding r .
  from t6[THEN conjunct2, THEN conjunct2] have 8: \<open>map SimulationError.chunkName
      (extractErrors (js ''[string "@roblox-prelude"]:3: oops'') ?fb)
      = [js ''roblox-prelude'']\<close>
    unfolding r .
  from 1 2 3 4 5 6 7 8 show ?thesis by (intro conjI)
qed

end
